theory Spec2Isabelle
  imports Complex_Main "HOL-Library.Log_Nat"
begin

section \<open>Numbers and the random source\<close>

text \<open>
  The source computes on JavaScript numbers, which are binary doubles. A number is
  modelled by the real it denotes (finite values only); identifiers, volumes and market
  capitalisations, which the generator only ever builds as integers, are integers. The
  generator and the two formatters round the result of every arithmetic operation to
  the nearest double (\<open>toDouble\<close>, below), since what they store and print depends on
  the last bit; the price update and the percentage change are computed on the exact
  values (what is proved of them concerns the floor at 1, the order of the stored
  values at the level of cents, the fields left alone, and the non-finite results).

  \<^verbatim>\<open>Math.random()\<close> is the only source of non-determinism. It is modelled by an
  explicit stream of draws that is threaded through the code in call order: a draw
  returns the head of the stream and the rest of the stream.
\<close>

type_synonym rng = "nat \<Rightarrow> real"

definition Math_random :: "rng \<Rightarrow> real \<times> rng" where
  "Math_random g = (g 0, (\<lambda>n. g (Suc n)))"

text \<open>
  Every draw of \<^verbatim>\<open>Math.random()\<close> lies in the half-open interval from 0 to 1. (The
  draws are doubles; nothing below needs more than the interval.)
\<close>

definition unit_draws :: "rng \<Rightarrow> bool" where
  "unit_draws g = (\<forall>n. 0 \<le> g n \<and> g n < 1)"

text \<open>\<^verbatim>\<open>Math.round(x)\<close>: the nearest integer, a tie going towards plus infinity.\<close>

definition Math_round :: "real \<Rightarrow> real" where
  "Math_round x = of_int \<lfloor>x + 1 / 2\<rfloor>"

text \<open>\<^verbatim>\<open>Math.floor(x)\<close>, on a value the generator uses as an integer.\<close>

definition Math_floor :: "real \<Rightarrow> int" where
  "Math_floor x = \<lfloor>x\<rfloor>"

subsection \<open>Rounding to the nearest double\<close>

text \<open>
  The nearest integer, a tie going to the even one.
\<close>

definition roundEven :: "real \<Rightarrow> int" where
  "roundEven y =
     (let f = \<lfloor>y\<rfloor>; d = y - of_int f
      in if d < 1 / 2 then f else if 1 / 2 < d then f + 1 else if even f then f else f + 1)"

text \<open>
  In units of the least positive double, which is 2 to the power \<open>-1074\<close>, the doubles
  are the integers \<open>m * 2 ^ s\<close> with \<open>m\<close> of at most 53 bits. Around a number that has
  \<open>b\<close> bits in these units, two neighbouring doubles are \<open>2 ^ s\<close> units apart, where
  \<open>s = b - 53\<close> (and 0 where that is negative: the subnormal numbers). An arithmetic
  operation returns the double nearest to its exact result, a tie going to the even
  multiple of the spacing. Results of 2 to the power 1024 and more, which become
  infinite, are outside this model.
\<close>

definition denormExp :: nat where
  "denormExp = 1074"

definition spacingExp :: "real \<Rightarrow> nat" where
  "spacingExp x = nat (bitlen \<lfloor>\<bar>x\<bar> * 2 ^ denormExp\<rfloor> - 53)"

definition toDouble :: "real \<Rightarrow> real" where
  "toDouble x =
     of_int (roundEven (x * 2 ^ denormExp / 2 ^ spacingExp x)) * 2 ^ spacingExp x / 2 ^ denormExp"

text \<open>
  \<^verbatim>\<open>Math.round(x * 100) / 100\<close> on doubles: the product is rounded, \<^verbatim>\<open>Math.round\<close>
  is exact (its result is an integer far below \<open>2 ^ 53\<close>), the quotient is rounded.
\<close>

definition roundCents :: "real \<Rightarrow> real" where
  "roundCents x = toDouble (Math_round (toDouble (x * 100)) / 100)"

text \<open>The integer \<^verbatim>\<open>Math.round(x * 100)\<close> in it: the value in cents.\<close>

definition centsOf :: "real \<Rightarrow> int" where
  "centsOf x = \<lfloor>toDouble (x * 100) + 1 / 2\<rfloor>"

section \<open>The record (\<^verbatim>\<open>interface StockData\<close>, mockData.ts)\<close>

record StockData =
  id_num :: int
  symbol :: string
  company :: string
  sector :: string
  exchange :: string
  price :: real
  openPrice :: real
  dayHigh :: real
  dayLow :: real
  volume :: int
  marketCap :: int

section \<open>The periodic price update (\<^verbatim>\<open>App\<close>, the \<^verbatim>\<open>setInterval\<close> callback)\<close>

text \<open>
  The body of the function passed to \<^verbatim>\<open>prevStocks.map\<close>, with the draw \<open>r\<close> of
  \<^verbatim>\<open>Math.random()\<close> as an argument:
  \<^verbatim>\<open>
  const change = (Math.random() - 0.5) * 5;
  const newPrice = Math.max(1, stock.price + change);
  return { ...stock, price: Math.round(newPrice * 100) / 100,
           dayHigh: Math.max(stock.dayHigh, newPrice),
           dayLow: Math.min(stock.dayLow, newPrice) };
  \<close>
\<close>

definition updateStock :: "real \<Rightarrow> StockData \<Rightarrow> StockData" where
  "updateStock r stock =
     (let change = (r - 0.5) * 5;
          newPrice = max 1 (price stock + change)
      in stock\<lparr>price := Math_round (newPrice * 100) / 100,
               dayHigh := max (dayHigh stock) newPrice,
               dayLow := min (dayLow stock) newPrice\<rparr>)"

text \<open>
  \<^verbatim>\<open>prevStocks.map(...)\<close>: the records are visited in order, each visit takes one
  draw. The result is the new array and the rest of the random stream.
\<close>

fun mapStocks :: "rng \<Rightarrow> StockData list \<Rightarrow> StockData list \<times> rng" where
  "mapStocks g [] = ([], g)"
| "mapStocks g (stock # rest) =
     (let (r, g1) = Math_random g;
          stock' = updateStock r stock;
          (rest', g2) = mapStocks g1 rest
      in (stock' # rest', g2))"

text \<open>The state after \<open>n\<close> firings of the interval timer.\<close>

fun ticks :: "nat \<Rightarrow> rng \<Rightarrow> StockData list \<Rightarrow> StockData list \<times> rng" where
  "ticks 0 g prevStocks = (prevStocks, g)"
| "ticks (Suc n) g prevStocks =
     (let (newStocks, g') = mapStocks g prevStocks in ticks n g' newStocks)"

section \<open>The record generator (\<^verbatim>\<open>generateMockData\<close>, mockData.ts)\<close>

definition sectors :: "string list" where
  "sectors = [''Technology'', ''Finance'', ''Healthcare'', ''Energy'', ''Consumer'']"

definition companies :: "string list" where
  "companies = [''TechCorp'', ''GlobalBank'', ''MediHealth'', ''PowerGrid'', ''RetailMax'',
                ''CloudNet'', ''InvestPro'', ''BioPharm'', ''SolarWave'', ''ShopEase'']"

definition exchanges :: "string list" where
  "exchanges = [''NYSE'', ''NASDAQ'', ''LSE'', ''TSE'', ''HKEX'']"

text \<open>
  \<^verbatim>\<open>s.substring(0, n)\<close> and \<^verbatim>\<open>s.toUpperCase()\<close>. The names the generator applies them
  to are ASCII, where upper-casing moves the letters a to z down by 32 and keeps every
  other character.
\<close>

definition substring0 :: "nat \<Rightarrow> string \<Rightarrow> string" where
  "substring0 n s = take n s"

definition upperChar :: "char \<Rightarrow> char" where
  "upperChar c =
     (let k = (of_char c :: nat) in if 97 \<le> k \<and> k \<le> 122 then char_of (k - 32) else c)"

definition toUpperCase :: "string \<Rightarrow> string" where
  "toUpperCase s = map upperChar s"

text \<open>
  The text of a non-negative integer, as template interpolation and
  \<^verbatim>\<open>Number.prototype.toString\<close> print it: its decimal digits, most significant first,
  with no leading zero.
\<close>

definition digitChar :: "nat \<Rightarrow> char" where
  "digitChar d = char_of (48 + d)"

function natToString :: "nat \<Rightarrow> string" where
  "natToString n =
     (if n < 10 then [digitChar n] else natToString (n div 10) @ [digitChar (n mod 10)])"
  by pat_completeness auto
termination
  by (relation "measure (\<lambda>n. n)") auto

declare natToString.simps [simp del]

text \<open>
  One iteration of the \<^verbatim>\<open>for\<close> loop: the record for index \<open>i\<close>. The six calls of
  \<^verbatim>\<open>Math.random()\<close> happen in the order the source evaluates them: base price,
  opening price, day-high, day-low, volume, market cap.
  \<^verbatim>\<open>
  const basePrice = Math.round((Math.random() * 500 + 10) * 100) / 100;
  const openPrice = Math.round((basePrice + (Math.random() - 0.5) * 20) * 100) / 100;
  dayHigh: Math.round((basePrice + Math.random() * 15) * 100) / 100,
  dayLow: Math.round((basePrice - Math.random() * 15) * 100) / 100,
  volume: Math.floor(Math.random() * 10000000) + 100000,
  marketCap: Math.floor(Math.random() * 1000000000) + 10000000,
  \<close>
  Every product, sum, difference and quotient is rounded to a double. The two sums
  after \<^verbatim>\<open>Math.floor\<close> are sums of integers far below \<open>2 ^ 53\<close>, which are exact.
\<close>

definition genStock :: "nat \<Rightarrow> rng \<Rightarrow> StockData \<times> rng" where
  "genStock i g =
     (let company = companies ! (i mod length companies);
          (r1, g1) = Math_random g;
          basePrice = roundCents (toDouble (toDouble (r1 * 500) + 10));
          (r2, g2) = Math_random g1;
          openPrice = roundCents (toDouble (basePrice + toDouble (toDouble (r2 - 0.5) * 20)));
          (r3, g3) = Math_random g2;
          (r4, g4) = Math_random g3;
          (r5, g5) = Math_random g4;
          (r6, g6) = Math_random g5
      in (\<lparr>id_num = int i + 1,
           symbol = toUpperCase (substring0 3 company) @ natToString i,
           company = company @ '' Inc.'',
           sector = sectors ! (i mod length sectors),
           exchange = exchanges ! (i mod length exchanges),
           price = basePrice,
           openPrice = openPrice,
           dayHigh = roundCents (toDouble (basePrice + toDouble (r3 * 15))),
           dayLow = roundCents (toDouble (basePrice - toDouble (r4 * 15))),
           volume = Math_floor (toDouble (r5 * 10000000)) + 100000,
           marketCap = Math_floor (toDouble (r6 * 1000000000)) + 10000000\<rparr>, g6))"

text \<open>
  The loop \<^verbatim>\<open>for (let i = 0; i < LIST_ITEM_COUNT; i++) { ... stocks.push(...) }\<close>;
  \<open>acc\<close> is the array \<^verbatim>\<open>stocks\<close> built so far. \<^verbatim>\<open>LIST_ITEM_COUNT\<close> comes from the
  configuration module, so it is the parameter \<open>count\<close> here.
\<close>

function generateLoop :: "nat \<Rightarrow> nat \<Rightarrow> rng \<Rightarrow> StockData list \<Rightarrow> StockData list \<times> rng" where
  "generateLoop count i g acc =
     (if i < count
      then (let (stock, g') = genStock i g in generateLoop count (i + 1) g' (acc @ [stock]))
      else (acc, g))"
  by pat_completeness auto
termination
  by (relation "measure (\<lambda>(count, i, g, acc). count - i)") auto

declare generateLoop.simps [simp del]

definition generateMockData :: "nat \<Rightarrow> rng \<Rightarrow> StockData list \<times> rng" where
  "generateMockData count g = generateLoop count 0 g []"

text \<open>The random stream after \<open>k\<close> draws have been taken from it.\<close>

definition draws_from :: "nat \<Rightarrow> rng \<Rightarrow> rng" where
  "draws_from k g = (\<lambda>n. g (k + n))"

section \<open>The price update on objects in a store\<close>

text \<open>
  The object spread \<^verbatim>\<open>{ ...stock, price: ..., dayHigh: ..., dayLow: ... }\<close> allocates a
  new object, and \<^verbatim>\<open>map\<close> builds a new array of the new references; the old objects
  are read, never written. To make object identity visible, the objects live in a store
  (a list indexed by address, allocation appends) and the array holds addresses.
\<close>

type_synonym ref = nat
type_synonym store = "StockData list"

definition alloc :: "store \<Rightarrow> StockData \<Rightarrow> ref \<times> store" where
  "alloc h obj = (length h, h @ [obj])"

fun mapStocksRefs :: "rng \<Rightarrow> store \<Rightarrow> ref list \<Rightarrow> ref list \<times> store \<times> rng" where
  "mapStocksRefs g h [] = ([], h, g)"
| "mapStocksRefs g h (p # ps) =
     (let (r, g1) = Math_random g;
          (p', h1) = alloc h (updateStock r (h ! p));
          (ps', h2, g2) = mapStocksRefs g1 h1 ps
      in (p' # ps', h2, g2))"

section \<open>The update as the specification words it\<close>



section \<open>The row renderer (\<^verbatim>\<open>StockItem\<close>, StockItem.tsx)\<close>

text \<open>
  \<^verbatim>\<open>x.toFixed(2)\<close> for a finite \<open>x\<close> below \<open>10\<^sup>2\<^sup>1\<close> in absolute value: a minus sign
  for a negative \<open>x\<close>, then the integer \<open>n\<close> with \<open>n / 100\<close> nearest to the absolute value
  (the larger \<open>n\<close> on a tie), printed with two digits after the point. The value of
  \<open>x\<close> is that of the double, so a tie is a double that lies exactly halfway.
\<close>

definition toFixed2 :: "real \<Rightarrow> string" where
  "toFixed2 x =
     (let n = nat \<lfloor>\<bar>x\<bar> * 100 + 1 / 2\<rfloor>
      in (if x < 0 then ''-'' else '''') @ natToString (n div 100) @ ''.''
           @ [digitChar (n mod 100 div 10), digitChar (n mod 10)])"

text \<open>\<^verbatim>\<open>n.toString()\<close> for an integer \<open>n\<close>.\<close>

definition intToString :: "int \<Rightarrow> string" where
  "intToString n = (if n < 0 then ''-'' @ natToString (nat (- n)) else natToString (nat n))"

text \<open>
  \<^verbatim>\<open>
  if (vol >= 1000000) return `${(vol / 1000000).toFixed(2)}M`;
  if (vol >= 1000) return `${(vol / 1000).toFixed(2)}K`;
  return vol.toString();
  \<close>
  The quotient is the double that the division returns.
\<close>

definition formatVolume :: "int \<Rightarrow> string" where
  "formatVolume vol =
     (if 1000000 \<le> vol then toFixed2 (toDouble (of_int vol / 1000000)) @ ''M''
      else if 1000 \<le> vol then toFixed2 (toDouble (of_int vol / 1000)) @ ''K''
      else intToString vol)"

text \<open>
  \<^verbatim>\<open>
  if (cap >= 1000000000) return `$${(cap / 1000000000).toFixed(2)}B`;
  if (cap >= 1000000) return `$${(cap / 1000000).toFixed(2)}M`;
  return `$${cap.toLocaleString()}`;
  \<close>
  The quotient is the double that the division returns. What \<^verbatim>\<open>toLocaleString\<close>
  prints depends on the host's locale, so it is the parameter \<open>toLocaleString\<close>.
\<close>

definition formatMarketCap :: "(int \<Rightarrow> string) \<Rightarrow> int \<Rightarrow> string" where
  "formatMarketCap toLocaleString cap =
     (if 1000000000 \<le> cap then ''$'' @ toFixed2 (toDouble (of_int cap / 1000000000)) @ ''B''
      else if 1000000 \<le> cap then ''$'' @ toFixed2 (toDouble (of_int cap / 1000000)) @ ''M''
      else ''$'' @ toLocaleString cap)"

text \<open>
  The percentage change, \<^verbatim>\<open>(priceChange / openPrice) * 100\<close>. This is the one place
  where the values beyond the finite numbers matter: a division by zero does not fail, it
  yields an infinity (or not-a-number for \<open>0 / 0\<close>). The result type has them. The
  divisor zero is taken as positive zero; for negative zero the two infinities swap.
\<close>

datatype number = Finite real | PosInfinity | NegInfinity | NaN

fun isFinite :: "number \<Rightarrow> bool" where
  "isFinite (Finite x) = True"
| "isFinite PosInfinity = False"
| "isFinite NegInfinity = False"
| "isFinite NaN = False"

definition divide_number :: "real \<Rightarrow> real \<Rightarrow> number" where
  "divide_number a b =
     (if b = 0 then (if a = 0 then NaN else if 0 < a then PosInfinity else NegInfinity)
      else Finite (a / b))"

fun times_number :: "number \<Rightarrow> real \<Rightarrow> number" where
  "times_number (Finite x) y = Finite (x * y)"
| "times_number PosInfinity y =
     (if y = 0 then NaN else if 0 < y then PosInfinity else NegInfinity)"
| "times_number NegInfinity y =
     (if y = 0 then NaN else if 0 < y then NegInfinity else PosInfinity)"
| "times_number NaN y = NaN"

definition priceChange :: "StockData \<Rightarrow> real" where
  "priceChange props = price props - openPrice props"

definition changePercent :: "StockData \<Rightarrow> number" where
  "changePercent props = times_number (divide_number (priceChange props) (openPrice props)) 100"

text \<open>\<^verbatim>\<open>changePercent.toFixed(2)\<close>, as the row prints it before the percent sign.\<close>

fun toFixed2_number :: "number \<Rightarrow> string" where
  "toFixed2_number (Finite x) = toFixed2 x"
| "toFixed2_number PosInfinity = ''Infinity''"
| "toFixed2_number NegInfinity = ''-Infinity''"
| "toFixed2_number NaN = ''NaN''"

definition changePercentText :: "StockData \<Rightarrow> string" where
  "changePercentText props = ''('' @ toFixed2_number (changePercent props) @ ''%)''"

subsection \<open>The row's local state and its two buttons\<close>

text \<open>
  The application state as far as the two click handlers can reach it: the collection
  owned by \<^verbatim>\<open>App\<close>, the \<^verbatim>\<open>watchlisted\<close> flag of every row (rows are keyed by the
  record's identifier; \<^verbatim>\<open>useState(false)\<close> starts each at false), and what has been
  written by \<^verbatim>\<open>console.log\<close> and shown by \<^verbatim>\<open>alert\<close>.
\<close>

record AppState =
  stocks :: "StockData list"
  watchlisted :: "int \<Rightarrow> bool"
  consoleLog :: "string list"
  alerts :: "string list"

text \<open>
  The watchlist button of the row with properties \<open>props\<close>:
  \<^verbatim>\<open>setWatchlisted(!watchlisted); console.log(`Watchlist toggled for ${symbol}`);\<close>
\<close>

definition watchlistClick :: "StockData \<Rightarrow> AppState \<Rightarrow> AppState" where
  "watchlistClick props st =
     st\<lparr>watchlisted := (watchlisted st)(id_num props := \<not> watchlisted st (id_num props)),
        consoleLog := consoleLog st @ [''Watchlist toggled for '' @ symbol props]\<rparr>"

text \<open>
  The trade button:
  \<^verbatim>\<open>alert(`Trade executed for ${symbol}\nPrice: $${price.toFixed(2)}`);\<close>
\<close>

definition tradeClick :: "StockData \<Rightarrow> AppState \<Rightarrow> AppState" where
  "tradeClick props st =
     st\<lparr>alerts := alerts st @
        [''Trade executed for '' @ symbol props @ [CHR 0x0A] @ ''Price: $'' @ toFixed2 (price props)]\<rparr>"

text \<open>
  What the watchlist button shows for a flag: its class attribute and its label. The
  label starts with a filled or an empty star (U+2605, U+2606), written here as the
  bytes of their UTF-8 encoding.
\<close>

definition watchlistClassName :: "bool \<Rightarrow> string" where
  "watchlistClassName w = ''btn-watchlist '' @ (if w then ''active'' else '''')"

definition watchlistLabel :: "bool \<Rightarrow> string" where
  "watchlistLabel w =
     (if w then [CHR 0xE2, CHR 0x98, CHR 0x85] else [CHR 0xE2, CHR 0x98, CHR 0x86]) @ '' Watchlist''"

section \<open>The frame-rate indicator (\<^verbatim>\<open>FPSCounter\<close>, FPSCounter.tsx)\<close>

text \<open>
  The three status texts. Each starts with a symbol outside ASCII (check mark U+2713,
  warning sign U+26A0, ballot cross U+2717), written as the bytes of its UTF-8 encoding.
\<close>

definition textOptimal :: string where
  "textOptimal = [CHR 0xE2, CHR 0x9C, CHR 0x93] @ '' Optimal''"

definition textReduced :: string where
  "textReduced = [CHR 0xE2, CHR 0x9A, CHR 0xA0] @ '' Reduced''"

definition textPoor :: string where
  "textPoor = [CHR 0xE2, CHR 0x9C, CHR 0x97] @ '' Poor''"

text \<open>
  \<^verbatim>\<open>
  if (fps >= 50) return '... Optimal';
  if (fps >= 20) return '... Reduced';
  return '... Poor';
  \<close>
  The state \<^verbatim>\<open>fps\<close> is 60 at first and a result of \<^verbatim>\<open>Math.round\<close> afterwards, an
  integer.
\<close>

definition getStatusText :: "int \<Rightarrow> string" where
  "getStatusText fps =
     (if 50 \<le> fps then textOptimal else if 20 \<le> fps then textReduced else textPoor)"

section \<open>Sample inputs\<close>

text \<open>A random stream whose every draw is one half, and one whose every draw is zero.\<close>

definition half_draws :: rng where
  "half_draws = (\<lambda>n. 1 / 2)"

definition zero_draws :: rng where
  "zero_draws = (\<lambda>n. 0)"

text \<open>
  A random stream that starts with \<open>1 / 4096\<close> and \<open>4095 / 4096\<close> (both are doubles)
  and goes on with zeros.
\<close>

definition edge_draws :: rng where
  "edge_draws = (\<lambda>n. if n = 0 then 1 / 4096 else if n = 1 then 4095 / 4096 else 0)"

text \<open>
  A record as it stands during a session: two-decimal price between its day-low and its
  day-high.
\<close>

definition sampleStock :: StockData where
  "sampleStock =
     \<lparr>id_num = 1, symbol = ''TEC0'', company = ''TechCorp Inc.'', sector = ''Technology'',
      exchange = ''NYSE'', price = 100, openPrice = 100, dayHigh = 101, dayLow = 99,
      volume = 5100000, marketCap = 510000000\<rparr>"

text \<open>A record whose price has reached the floor of 1, so that its day-low is 1.\<close>

definition flooredStock :: StockData where
  "flooredStock =
     \<lparr>id_num = 2, symbol = ''GLO1'', company = ''GlobalBank Inc.'', sector = ''Finance'',
      exchange = ''NASDAQ'', price = 1, openPrice = 12, dayHigh = 15, dayLow = 1,
      volume = 5100000, marketCap = 510000000\<rparr>"

section \<open>Reading a decimal back\<close>

text \<open>
  The inverse of \<open>natToString\<close>, used to show that different numbers print differently:
  the value of a digit character, and the number a string of digits denotes.
\<close>

definition digitValue :: "char \<Rightarrow> nat" where
  "digitValue c = of_char c - 48"

definition stringToNat :: "string \<Rightarrow> nat" where
  "stringToNat s = foldl (\<lambda>a c. 10 * a + digitValue c) 0 s"

section \<open>Rounding to the nearest double\<close>

lemma roundEven_of_int [simp]: "roundEven (of_int k) = k"
  by (simp add: roundEven_def)

lemma roundEven_cases:
  "roundEven y = \<lfloor>y\<rfloor> \<or> roundEven y = \<lfloor>y\<rfloor> + 1"
  by (simp add: roundEven_def Let_def)

lemma roundEven_near: "\<bar>of_int (roundEven y) - y\<bar> \<le> 1 / 2"
proof -
  have "of_int \<lfloor>y\<rfloor> \<le> y" "y < of_int \<lfloor>y\<rfloor> + 1" by linarith+
  then show ?thesis
    by (auto simp: roundEven_def Let_def abs_le_iff split: if_splits)
qed

lemma roundEven_ge_int: "of_int k \<le> y \<Longrightarrow> k \<le> roundEven y"
proof -
  assume "of_int k \<le> y"
  then have "k \<le> \<lfloor>y\<rfloor>" by (simp add: le_floor_iff)
  with roundEven_cases [of y] show ?thesis by linarith
qed

lemma roundEven_le_int: "y \<le> of_int k \<Longrightarrow> roundEven y \<le> k"
proof -
  assume le: "y \<le> of_int k"
  show ?thesis
  proof (cases "y = of_int k")
    case True
    then show ?thesis by simp
  next
    case False
    with le have "y < of_int k" by simp
    then have "\<lfloor>y\<rfloor> < k" by (simp add: floor_less_iff)
    with roundEven_cases [of y] show ?thesis by linarith
  qed
qed

lemma roundEven_mono: "x \<le> y \<Longrightarrow> roundEven x \<le> roundEven y"
proof -
  assume xy: "x \<le> y"
  then have fl: "\<lfloor>x\<rfloor> \<le> \<lfloor>y\<rfloor>" by (rule floor_mono)
  show ?thesis
  proof (cases "\<lfloor>x\<rfloor> = \<lfloor>y\<rfloor>")
    case True
    with xy show ?thesis
      by (auto simp: roundEven_def Let_def)
  next
    case False
    with fl have "\<lfloor>x\<rfloor> + 1 \<le> \<lfloor>y\<rfloor>" by simp
    with roundEven_cases [of x] roundEven_cases [of y] show ?thesis by linarith
  qed
qed

lemma roundEven_minus: "roundEven (- y) = - roundEven y"
proof (cases "y = of_int \<lfloor>y\<rfloor>")
  case True
  then have "roundEven (- y) = roundEven (of_int (- \<lfloor>y\<rfloor>))" by simp
  also have "\<dots> = - \<lfloor>y\<rfloor>" by (rule roundEven_of_int)
  also have "\<dots> = - roundEven (of_int \<lfloor>y\<rfloor>)" by simp
  finally show ?thesis using True by simp
next
  case False
  have f: "\<lfloor>- y\<rfloor> = - \<lfloor>y\<rfloor> - 1"
    using False by (simp add: floor_minus ceiling_altdef)
  have g: "- y - of_int (- \<lfloor>y\<rfloor> - 1) = 1 - (y - of_int \<lfloor>y\<rfloor>)" by simp
  have nz: "y - of_int \<lfloor>y\<rfloor> \<noteq> 0" using False by simp
  show ?thesis
    unfolding roundEven_def Let_def f g using nz by auto
qed

lemma bitlen_mono: "a \<le> b \<Longrightarrow> bitlen a \<le> bitlen b"
  by (simp add: bitlen_def floorlog_mono)

lemma spacingExp_minus [simp]: "spacingExp (- x) = spacingExp x"
  by (simp add: spacingExp_def)

lemma spacingExp_mono: "\<bar>x\<bar> \<le> \<bar>y\<bar> \<Longrightarrow> spacingExp x \<le> spacingExp y"
proof -
  assume "\<bar>x\<bar> \<le> \<bar>y\<bar>"
  then have "\<lfloor>\<bar>x\<bar> * 2 ^ denormExp\<rfloor> \<le> \<lfloor>\<bar>y\<bar> * 2 ^ denormExp\<rfloor>"
    by (intro floor_mono mult_right_mono) simp_all
  then have "bitlen \<lfloor>\<bar>x\<bar> * 2 ^ denormExp\<rfloor> \<le> bitlen \<lfloor>\<bar>y\<bar> * 2 ^ denormExp\<rfloor>"
    by (rule bitlen_mono)
  then show ?thesis by (simp add: spacingExp_def)
qed

lemma floor_less_two_power: "\<lfloor>y\<rfloor> < 2 ^ k \<longleftrightarrow> y < 2 ^ k"
proof -
  have "\<lfloor>y\<rfloor> < 2 ^ k \<longleftrightarrow> y < of_int (2 ^ k)" by (rule floor_less_iff)
  then show ?thesis by simp
qed

lemma two_power_le_floor: "2 ^ k \<le> \<lfloor>y\<rfloor> \<longleftrightarrow> 2 ^ k \<le> y"
proof -
  have "2 ^ k \<le> \<lfloor>y\<rfloor> \<longleftrightarrow> of_int (2 ^ k) \<le> y" by (rule le_floor_iff)
  then show ?thesis by simp
qed

lemma spacingExp_le: "\<bar>x\<bar> * 2 ^ denormExp < 2 ^ (k + 53) \<Longrightarrow> spacingExp x \<le> k"
proof -
  assume "\<bar>x\<bar> * 2 ^ denormExp < 2 ^ (k + 53)"
  then have "\<lfloor>\<bar>x\<bar> * 2 ^ denormExp\<rfloor> < 2 ^ (k + 53)"
    by (simp only: floor_less_two_power)
  moreover have "nat (int (k + 53)) = k + 53" by simp
  ultimately have "0 \<le> int (k + 53) \<and> \<lfloor>\<bar>x\<bar> * 2 ^ denormExp\<rfloor> < 2 ^ nat (int (k + 53))"
    by (simp only: of_nat_0_le_iff simp_thms)
  then have "bitlen \<lfloor>\<bar>x\<bar> * 2 ^ denormExp\<rfloor> \<le> int (k + 53)"
    by (simp only: bitlen_le_iff_power)
  then show ?thesis by (simp add: spacingExp_def)
qed

lemma spacingExp_ge: "2 ^ (k + 52) \<le> \<bar>x\<bar> * 2 ^ denormExp \<Longrightarrow> k \<le> spacingExp x"
proof -
  assume "2 ^ (k + 52) \<le> \<bar>x\<bar> * 2 ^ denormExp"
  then have "2 ^ (k + 52) \<le> \<lfloor>\<bar>x\<bar> * 2 ^ denormExp\<rfloor>"
    by (simp only: two_power_le_floor)
  moreover have "nat (int (k + 53)) - 1 = k + 52" by simp
  ultimately have "int (k + 53) \<le> 0 \<or> 2 ^ (nat (int (k + 53)) - 1) \<le> \<lfloor>\<bar>x\<bar> * 2 ^ denormExp\<rfloor>"
    by (simp only: simp_thms)
  then have "int (k + 53) \<le> bitlen \<lfloor>\<bar>x\<bar> * 2 ^ denormExp\<rfloor>"
    by (simp only: bitlen_ge_iff_power)
  then show ?thesis by (simp add: spacingExp_def)
qed

lemma scaled_less: "\<bar>x\<bar> * 2 ^ denormExp < 2 ^ (spacingExp x + 53)"
proof (rule ccontr)
  assume "\<not> \<bar>x\<bar> * 2 ^ denormExp < 2 ^ (spacingExp x + 53)"
  then have "2 ^ (spacingExp x + 53) \<le> \<bar>x\<bar> * 2 ^ denormExp" by (simp only: not_less)
  moreover have "spacingExp x + 53 = Suc (spacingExp x) + 52" by simp
  ultimately have "2 ^ (Suc (spacingExp x) + 52) \<le> \<bar>x\<bar> * 2 ^ denormExp" by (simp only:)
  then have "Suc (spacingExp x) \<le> spacingExp x" by (rule spacingExp_ge)
  then show False by simp
qed

lemma scaled_ge: "0 < spacingExp x \<Longrightarrow> 2 ^ (spacingExp x + 52) \<le> \<bar>x\<bar> * 2 ^ denormExp"
proof (rule ccontr)
  assume pos: "0 < spacingExp x" and neg: "\<not> 2 ^ (spacingExp x + 52) \<le> \<bar>x\<bar> * 2 ^ denormExp"
  from pos obtain k where k: "spacingExp x = Suc k" by (cases "spacingExp x") auto
  from neg have "\<bar>x\<bar> * 2 ^ denormExp < 2 ^ (spacingExp x + 52)" by (simp only: not_le)
  moreover have "spacingExp x + 52 = k + 53" using k by simp
  ultimately have "\<bar>x\<bar> * 2 ^ denormExp < 2 ^ (k + 53)" by (simp only:)
  then have "spacingExp x \<le> k" by (rule spacingExp_le)
  with k show False by simp
qed

lemma spacingExp_eq:
  "2 ^ n \<le> \<bar>x\<bar> \<Longrightarrow> \<bar>x\<bar> < 2 ^ (n + 1) \<Longrightarrow> spacingExp x = n + 1022"
proof (rule antisym)
  assume "\<bar>x\<bar> < 2 ^ (n + 1)"
  then have "\<bar>x\<bar> * 2 ^ denormExp < 2 ^ (n + 1) * 2 ^ denormExp" by simp
  also have "\<dots> = 2 ^ (n + 1 + denormExp)" by (simp only: power_add)
  also have "n + 1 + denormExp = n + 1022 + 53" by (simp add: denormExp_def)
  finally show "spacingExp x \<le> n + 1022" by (rule spacingExp_le)
next
  assume "2 ^ n \<le> \<bar>x\<bar>"
  then have "2 ^ n * 2 ^ denormExp \<le> \<bar>x\<bar> * 2 ^ denormExp" by simp
  moreover have "(2::real) ^ n * 2 ^ denormExp = 2 ^ (n + denormExp)" by (simp only: power_add)
  moreover have "n + denormExp = n + 1022 + 52" by (simp add: denormExp_def)
  ultimately have "2 ^ (n + 1022 + 52) \<le> \<bar>x\<bar> * 2 ^ denormExp" by simp
  then show "n + 1022 \<le> spacingExp x" by (rule spacingExp_ge)
qed

lemma toDouble_minus: "toDouble (- x) = - toDouble x"
  by (simp add: toDouble_def roundEven_minus)

lemma toDouble_zero [simp]: "toDouble 0 = 0"
  by (simp add: toDouble_def roundEven_def)

text \<open>The result in units of the least positive double.\<close>

lemma toDouble_scaled:
  "toDouble x * 2 ^ denormExp
     = of_int (roundEven (x * 2 ^ denormExp / 2 ^ spacingExp x)) * 2 ^ spacingExp x"
  by (simp add: toDouble_def)

lemma toDouble_upper:
  assumes "0 \<le> x"
  shows "toDouble x * 2 ^ denormExp \<le> 2 ^ (spacingExp x + 53)"
proof -
  have "x * 2 ^ denormExp < 2 ^ (spacingExp x + 53)"
    using scaled_less [of x] assms by simp
  then have "x * 2 ^ denormExp / 2 ^ spacingExp x < 2 ^ 53"
    by (simp add: divide_less_eq power_add mult.commute)
  then have "x * 2 ^ denormExp / 2 ^ spacingExp x \<le> of_int (2 ^ 53)" by simp
  then have "roundEven (x * 2 ^ denormExp / 2 ^ spacingExp x) \<le> 2 ^ 53"
    by (rule roundEven_le_int)
  then have "real_of_int (roundEven (x * 2 ^ denormExp / 2 ^ spacingExp x)) \<le> 2 ^ 53"
    by (metis of_int_le_iff of_int_numeral of_int_power)
  then have "real_of_int (roundEven (x * 2 ^ denormExp / 2 ^ spacingExp x)) * 2 ^ spacingExp x
      \<le> 2 ^ 53 * 2 ^ spacingExp x"
    by (intro mult_right_mono) simp_all
  then show ?thesis
    by (simp only: toDouble_scaled power_add mult.commute)
qed

lemma toDouble_lower:
  assumes "0 \<le> x" and "0 < spacingExp x"
  shows "2 ^ (spacingExp x + 52) \<le> toDouble x * 2 ^ denormExp"
proof -
  have "2 ^ (spacingExp x + 52) \<le> x * 2 ^ denormExp"
    using scaled_ge [OF assms(2)] assms(1) by simp
  then have "2 ^ 52 \<le> x * 2 ^ denormExp / 2 ^ spacingExp x"
    by (simp add: le_divide_eq power_add mult.commute)
  then have "of_int (2 ^ 52) \<le> x * 2 ^ denormExp / 2 ^ spacingExp x" by simp
  then have "2 ^ 52 \<le> roundEven (x * 2 ^ denormExp / 2 ^ spacingExp x)"
    by (rule roundEven_ge_int)
  then have "2 ^ 52 \<le> real_of_int (roundEven (x * 2 ^ denormExp / 2 ^ spacingExp x))"
    by (metis of_int_le_iff of_int_numeral of_int_power)
  then have "2 ^ 52 * 2 ^ spacingExp x
      \<le> real_of_int (roundEven (x * 2 ^ denormExp / 2 ^ spacingExp x)) * 2 ^ spacingExp x"
    by (intro mult_right_mono) simp_all
  then show ?thesis
    by (simp only: toDouble_scaled power_add mult.commute)
qed

lemma toDouble_nonneg: "0 \<le> x \<Longrightarrow> 0 \<le> toDouble x"
proof -
  assume "0 \<le> x"
  then have "of_int 0 \<le> x * 2 ^ denormExp / 2 ^ spacingExp x" by simp
  then have "0 \<le> roundEven (x * 2 ^ denormExp / 2 ^ spacingExp x)"
    by (rule roundEven_ge_int)
  then show ?thesis by (simp add: toDouble_def)
qed

lemma toDouble_mono_nonneg:
  assumes "0 \<le> x" and "x \<le> y"
  shows "toDouble x \<le> toDouble y"
proof -
  from assms have y: "0 \<le> y" by simp
  from assms have "\<bar>x\<bar> \<le> \<bar>y\<bar>" by simp
  then have s: "spacingExp x \<le> spacingExp y" by (rule spacingExp_mono)
  have "toDouble x * 2 ^ denormExp \<le> toDouble y * 2 ^ denormExp"
  proof (cases "spacingExp x = spacingExp y")
    case True
    from assms(2) have "x * 2 ^ denormExp / 2 ^ spacingExp y \<le> y * 2 ^ denormExp / 2 ^ spacingExp y"
      by (intro divide_right_mono mult_right_mono) simp_all
    then have "roundEven (x * 2 ^ denormExp / 2 ^ spacingExp y)
        \<le> roundEven (y * 2 ^ denormExp / 2 ^ spacingExp y)"
      by (rule roundEven_mono)
    then have "real_of_int (roundEven (x * 2 ^ denormExp / 2 ^ spacingExp y)) * 2 ^ spacingExp y
        \<le> real_of_int (roundEven (y * 2 ^ denormExp / 2 ^ spacingExp y)) * 2 ^ spacingExp y"
      by (intro mult_right_mono) simp_all
    then show ?thesis by (simp only: toDouble_scaled True)
  next
    case False
    with s have lt: "spacingExp x + 53 \<le> spacingExp y + 52" by simp
    then have pos: "0 < spacingExp y" by simp
    have "toDouble x * 2 ^ denormExp \<le> 2 ^ (spacingExp x + 53)"
      using assms(1) by (rule toDouble_upper)
    also have "(2::real) ^ (spacingExp x + 53) \<le> 2 ^ (spacingExp y + 52)"
      using lt by (intro power_increasing) simp_all
    also have "\<dots> \<le> toDouble y * 2 ^ denormExp"
      using y pos by (rule toDouble_lower)
    finally show ?thesis .
  qed
  then show ?thesis by simp
qed

lemma toDouble_mono:
  assumes "x \<le> y"
  shows "toDouble x \<le> toDouble y"
proof (cases "0 \<le> x")
  case True
  then show ?thesis using assms by (rule toDouble_mono_nonneg)
next
  case x: False
  show ?thesis
  proof (cases "0 \<le> y")
    case True
    from x have "0 \<le> toDouble (- x)" by (intro toDouble_nonneg) simp
    then have "toDouble x \<le> 0" by (simp add: toDouble_minus)
    also have "0 \<le> toDouble y" using True by (rule toDouble_nonneg)
    finally show ?thesis .
  next
    case False
    then have "0 \<le> - y" by simp
    moreover from assms have "- y \<le> - x" by simp
    ultimately have "toDouble (- y) \<le> toDouble (- x)" by (rule toDouble_mono_nonneg)
    then show ?thesis by (simp add: toDouble_minus)
  qed
qed

text \<open>Numbers with at most 53 significant bits are doubles.\<close>

lemma toDouble_dyadic:
  assumes "\<bar>m\<bar> < 2 ^ 53" and "j \<le> denormExp"
  shows "toDouble (of_int m / 2 ^ j) = of_int m / 2 ^ j"
proof -
  define x where "x = real_of_int m / 2 ^ j"
  have sc: "x * 2 ^ denormExp = of_int m * 2 ^ (denormExp - j)"
    using assms(2) by (simp add: x_def power_diff)
  have "\<bar>x\<bar> * 2 ^ denormExp = \<bar>x * 2 ^ denormExp\<bar>" by (simp add: abs_mult)
  also have "\<dots> = \<bar>real_of_int m\<bar> * 2 ^ (denormExp - j)" by (simp add: sc abs_mult)
  also have "\<dots> < 2 ^ 53 * 2 ^ (denormExp - j)"
  proof -
    from assms(1) have "\<bar>real_of_int m\<bar> < 2 ^ 53"
      by (metis of_int_abs of_int_less_iff of_int_numeral of_int_power)
    then show ?thesis by (intro mult_strict_right_mono) simp_all
  qed
  also have "\<dots> = 2 ^ (denormExp - j + 53)" by (simp only: power_add mult.commute)
  finally have "spacingExp x \<le> denormExp - j" by (rule spacingExp_le)
  then obtain d where d: "denormExp - j = spacingExp x + d"
    by (metis le_Suc_ex)
  have "x * 2 ^ denormExp / 2 ^ spacingExp x = of_int (m * 2 ^ d)"
    by (simp add: sc d power_add)
  then have "roundEven (x * 2 ^ denormExp / 2 ^ spacingExp x) = m * 2 ^ d"
    by (simp only: roundEven_of_int)
  then have "toDouble x * 2 ^ denormExp = of_int (m * 2 ^ d) * 2 ^ spacingExp x"
    by (simp only: toDouble_scaled)
  also have "\<dots> = x * 2 ^ denormExp"
    by (simp add: sc d power_add)
  finally have "toDouble x = x" by simp
  then show ?thesis by (simp only: x_def)
qed

lemma toDouble_int: "\<bar>k\<bar> < 2 ^ 53 \<Longrightarrow> toDouble (of_int k) = of_int k"
  using toDouble_dyadic [of k 0] by simp

lemma toDouble_error:
  assumes "\<bar>x\<bar> < 2 ^ n"
  shows "\<bar>toDouble x - x\<bar> \<le> 2 ^ n / 2 ^ 54"
proof -
  define s where "s = spacingExp x"
  define y where "y = x * 2 ^ denormExp / 2 ^ s"
  have "\<bar>x\<bar> * 2 ^ denormExp < 2 ^ n * 2 ^ denormExp"
    using assms by simp
  also have "\<dots> = 2 ^ (n + denormExp)" by (simp only: power_add)
  also have "n + denormExp = n + 1021 + 53" by (simp add: denormExp_def)
  finally have "s \<le> n + 1021" unfolding s_def by (rule spacingExp_le)
  then have p: "(2::real) ^ s \<le> 2 ^ (n + 1021)" by (intro power_increasing) simp_all
  have "toDouble x - x = (of_int (roundEven y) - y) * 2 ^ s / 2 ^ denormExp"
    by (simp add: toDouble_def y_def s_def field_simps)
  then have "\<bar>toDouble x - x\<bar> = \<bar>of_int (roundEven y) - y\<bar> * 2 ^ s / 2 ^ denormExp"
    by (simp add: abs_mult)
  also have "\<dots> \<le> (1 / 2) * 2 ^ (n + 1021) / 2 ^ denormExp"
    using roundEven_near [of y] p
    by (intro divide_right_mono mult_mono) simp_all
  also have "\<dots> = 2 ^ n / 2 ^ 54"
  proof -
    have "(2::real) ^ denormExp = 2 ^ 1021 * 2 ^ 53" by (simp only: denormExp_def flip: power_add) simp
    then show ?thesis by (simp add: power_add)
  qed
  finally show ?thesis .
qed

text \<open>Evaluation, for a number whose magnitude lies between \<open>2 ^ n\<close> and \<open>2 ^ (n + 1)\<close>.\<close>

lemma toDouble_eval:
  assumes "2 ^ n \<le> \<bar>x\<bar>" and "\<bar>x\<bar> < 2 ^ (n + 1)" and "n \<le> 52"
  shows "toDouble x = of_int (roundEven (x * 2 ^ (52 - n))) / 2 ^ (52 - n)"
proof -
  have s: "spacingExp x = n + 1022" using assms(1,2) by (rule spacingExp_eq)
  have "denormExp = (52 - n) + (n + 1022)" using assms(3) by (simp add: denormExp_def)
  then have "(2::real) ^ denormExp = 2 ^ ((52 - n) + (n + 1022))" by (rule arg_cong)
  also have "\<dots> = 2 ^ (52 - n) * 2 ^ (n + 1022)" by (rule power_add)
  finally have c: "(2::real) ^ denormExp = 2 ^ (52 - n) * 2 ^ (n + 1022)" .
  show ?thesis
    unfolding toDouble_def s c by simp
qed

lemma roundEven_eval:
  "roundEven y = (if y - of_int \<lfloor>y\<rfloor> < 1 / 2 then \<lfloor>y\<rfloor>
     else if 1 / 2 < y - of_int \<lfloor>y\<rfloor> then \<lfloor>y\<rfloor> + 1
     else if even \<lfloor>y\<rfloor> then \<lfloor>y\<rfloor> else \<lfloor>y\<rfloor> + 1)"
  by (simp add: roundEven_def Let_def)

section \<open>Rounding\<close>

lemma Math_round_mono: "x \<le> y \<Longrightarrow> Math_round x \<le> Math_round y"
  unfolding Math_round_def by (simp add: floor_mono)

lemma Math_round_of_int: "Math_round (of_int k) = of_int k"
proof -
  have "\<lfloor>real_of_int k + 1 / 2\<rfloor> = k" by linarith
  then show ?thesis by (simp add: Math_round_def)
qed

lemma Math_round_ge_int: "of_int a \<le> x \<Longrightarrow> of_int a \<le> Math_round x"
  using Math_round_mono [of "of_int a" x] by (simp add: Math_round_of_int)

section \<open>One update, one tick, many ticks\<close>

lemma updateStock_price_ge_1: "1 \<le> price (updateStock r stock)"
proof -
  define newPrice where "newPrice = max 1 (price stock + (r - 0.5) * 5)"
  have "real_of_int 100 \<le> newPrice * 100" by (simp add: newPrice_def)
  then have "real_of_int 100 \<le> Math_round (newPrice * 100)"
    by (rule Math_round_ge_int)
  then show ?thesis
    by (simp add: updateStock_def Let_def newPrice_def)
qed

lemma mapStocks_length: "length (fst (mapStocks g prevStocks)) = length prevStocks"
  by (induction prevStocks arbitrary: g) (simp_all add: split_beta Let_def)

lemma mapStocks_nth:
  "i < length prevStocks \<Longrightarrow>
   fst (mapStocks g prevStocks) ! i = updateStock (g i) (prevStocks ! i)"
proof (induction prevStocks arbitrary: g i)
  case Nil
  then show ?case by simp
next
  case (Cons stock rest)
  show ?case
  proof (cases i)
    case 0
    then show ?thesis by (simp add: Math_random_def split_beta Let_def)
  next
    case (Suc j)
    with Cons.prems have "j < length rest" by simp
    from Cons.IH [OF this, of "\<lambda>n. g (Suc n)"] Suc show ?thesis
      by (simp add: Math_random_def split_beta Let_def)
  qed
qed

lemma mapStocks_snd: "snd (mapStocks g prevStocks) = draws_from (length prevStocks) g"
proof (induction prevStocks arbitrary: g)
  case Nil
  then show ?case by (simp add: draws_from_def)
next
  case (Cons stock rest)
  from Cons.IH [of "\<lambda>n. g (Suc n)"] show ?case
    by (simp add: Math_random_def split_beta Let_def draws_from_def)
qed

lemma mapStocks_member:
  assumes "s \<in> set (fst (mapStocks g prevStocks))"
  obtains i where "i < length prevStocks" and "s = updateStock (g i) (prevStocks ! i)"
proof -
  from assms obtain i where "i < length (fst (mapStocks g prevStocks))"
    and "s = fst (mapStocks g prevStocks) ! i"
    by (auto simp: in_set_conv_nth)
  then have "i < length prevStocks" "s = updateStock (g i) (prevStocks ! i)"
    by (simp_all add: mapStocks_length mapStocks_nth)
  then show thesis by (rule that)
qed

lemma mapStocks_price_ge_1: "s \<in> set (fst (mapStocks g prevStocks)) \<Longrightarrow> 1 \<le> price s"
  by (erule mapStocks_member) (simp add: updateStock_price_ge_1)

lemma ticks_length: "length (fst (ticks n g prevStocks)) = length prevStocks"
proof (induction n arbitrary: g prevStocks)
  case 0
  then show ?case by simp
next
  case (Suc n)
  have "length (fst (ticks n (snd (mapStocks g prevStocks)) (fst (mapStocks g prevStocks))))
      = length (fst (mapStocks g prevStocks))"
    by (rule Suc.IH)
  then show ?case by (simp add: split_beta mapStocks_length)
qed

lemma ticks_keep_floor:
  "\<forall>s\<in>set prevStocks. 1 \<le> price s \<Longrightarrow> \<forall>s\<in>set (fst (ticks n g prevStocks)). 1 \<le> price s"
proof (induction n arbitrary: g prevStocks)
  case 0
  then show ?case by simp
next
  case (Suc n)
  have "\<forall>s\<in>set (fst (mapStocks g prevStocks)). 1 \<le> price s"
    by (simp add: mapStocks_price_ge_1)
  then have "\<forall>s\<in>set (fst (ticks n (snd (mapStocks g prevStocks)) (fst (mapStocks g prevStocks)))).
      1 \<le> price s"
    by (rule Suc.IH)
  then show ?case by (simp add: split_beta)
qed

section \<open>The generator's loop\<close>

lemma genStock_snd: "snd (genStock i g) = draws_from 6 g"
  by (simp add: genStock_def Math_random_def Let_def draws_from_def fun_eq_iff eval_nat_numeral)

lemma draws_from_add: "draws_from a (draws_from b g) = draws_from (b + a) g"
  by (simp add: draws_from_def fun_eq_iff add.assoc)

lemma generateLoop_length:
  "length (fst (generateLoop count i g acc)) = length acc + (count - i)"
proof (induction count i g acc rule: generateLoop.induct)
  case (1 count i g acc)
  show ?case
  proof (cases "i < count")
    case True
    obtain stock g' where sg: "genStock i g = (stock, g')" by (cases "genStock i g")
    from "1.IH" [OF True sg [symmetric] refl] True sg show ?thesis
      by (subst generateLoop.simps) simp
  next
    case False
    then show ?thesis by (subst generateLoop.simps) simp
  qed
qed

lemma generateLoop_nth:
  "k < length acc + (count - i) \<Longrightarrow>
   fst (generateLoop count i g acc) ! k =
     (if k < length acc then acc ! k
      else fst (genStock (i + (k - length acc)) (draws_from (6 * (k - length acc)) g)))"
proof (induction count i g acc rule: generateLoop.induct)
  case (1 count i g acc)
  show ?case
  proof (cases "i < count")
    case True
    obtain stock g' where sg: "genStock i g = (stock, g')" by (cases "genStock i g")
    have g': "g' = draws_from 6 g" using genStock_snd [of i g] sg by simp
    have k: "k < length (acc @ [stock]) + (count - (i + 1))" using "1.prems" True by simp
    have step: "fst (generateLoop count i g acc) = fst (generateLoop count (i + 1) g' (acc @ [stock]))"
      using True sg by (subst generateLoop.simps) simp
    show ?thesis
    proof (cases "k < length acc")
      case True
      with "1.IH" [OF \<open>i < count\<close> sg [symmetric] refl k] step show ?thesis
        by (simp add: nth_append)
    next
      case False
      show ?thesis
      proof (cases "k = length acc")
        case True
        with "1.IH" [OF \<open>i < count\<close> sg [symmetric] refl k] step sg show ?thesis
          by (simp add: nth_append draws_from_def)
      next
        case False
        with \<open>\<not> k < length acc\<close> have gt: "length acc < k" by simp
        then have e1: "i + 1 + (k - length (acc @ [stock])) = i + (k - length acc)" by simp
        have e2: "6 + 6 * (k - length (acc @ [stock])) = 6 * (k - length acc)" using gt by simp
        from "1.IH" [OF \<open>i < count\<close> sg [symmetric] refl k] step gt e1 e2 show ?thesis
          by (simp add: g' draws_from_add)
      qed
    qed
  next
    case False
    with "1.prems" show ?thesis by (subst generateLoop.simps) simp
  qed
qed

lemma generateMockData_length: "length (fst (generateMockData count g)) = count"
  by (simp add: generateMockData_def generateLoop_length)

lemma generateMockData_nth:
  "k < count \<Longrightarrow> fst (generateMockData count g) ! k = fst (genStock k (draws_from (6 * k) g))"
  by (simp add: generateMockData_def generateLoop_nth)

lemma unit_draws_from: "unit_draws g \<Longrightarrow> unit_draws (draws_from k g)"
  by (simp add: unit_draws_def draws_from_def)

section \<open>The generator's arithmetic\<close>

lemma toDouble_numeral: "numeral w < (2::int) ^ 53 \<Longrightarrow> toDouble (numeral w) = numeral w"
  using toDouble_int [of "numeral w"] by simp

lemma toDouble_one [simp]: "toDouble 1 = 1"
  using toDouble_int [of 1] by simp

lemma toDouble_half [simp]: "toDouble (1 / 2) = 1 / 2"
  using toDouble_dyadic [of 1 1] by (simp add: denormExp_def)

lemma toDouble_near:
  assumes "\<bar>x\<bar> \<le> 100000"
  shows "\<bar>toDouble x - x\<bar> \<le> 1 / 2 ^ 37"
proof -
  from assms have "\<bar>x\<bar> < 2 ^ 17" by simp
  then have "\<bar>toDouble x - x\<bar> \<le> 2 ^ 17 / 2 ^ 54" by (rule toDouble_error)
  then show ?thesis by simp
qed

lemma toDouble_near_small:
  assumes "\<bar>x\<bar> < 1024"
  shows "\<bar>toDouble x - x\<bar> \<le> 1 / 2 ^ 44"
proof -
  from assms have "\<bar>x\<bar> < 2 ^ 10" by simp
  then have "\<bar>toDouble x - x\<bar> \<le> 2 ^ 10 / 2 ^ 54" by (rule toDouble_error)
  then show ?thesis by simp
qed

lemma toDouble_between:
  assumes "of_int a \<le> x" and "x \<le> of_int b" and "\<bar>a\<bar> < 2 ^ 53" and "\<bar>b\<bar> < 2 ^ 53"
  shows "of_int a \<le> toDouble x \<and> toDouble x \<le> of_int b"
  using toDouble_mono [OF assms(1)] toDouble_mono [OF assms(2)]
  by (simp only: toDouble_int [OF assms(3)] toDouble_int [OF assms(4)] simp_thms)

lemma roundCents_cents: "roundCents x = toDouble (of_int (centsOf x) / 100)"
  by (simp add: roundCents_def centsOf_def Math_round_def)

lemma roundCents_mono: "x \<le> y \<Longrightarrow> roundCents x \<le> roundCents y"
  unfolding roundCents_def
  by (intro toDouble_mono divide_right_mono Math_round_mono mult_right_mono) simp_all

lemma centsOf_bounds:
  assumes "of_int a \<le> x * 100" and "x * 100 \<le> of_int b" and "\<bar>a\<bar> < 2 ^ 53" and "\<bar>b\<bar> < 2 ^ 53"
  shows "a \<le> centsOf x" and "centsOf x \<le> b"
proof -
  from toDouble_between [OF assms]
  have "of_int a \<le> toDouble (x * 100)" "toDouble (x * 100) \<le> of_int b" by simp_all
  then show "a \<le> centsOf x" "centsOf x \<le> b"
    unfolding centsOf_def by linarith+
qed

text \<open>
  A price of \<open>k\<close> cents, moved by an amount between two whole numbers and rounded to
  cents again, lands between \<open>k\<close> plus the one and \<open>k\<close> plus the other in cents: the
  rounding errors of the doubles are far below half a cent.
\<close>

lemma centsOf_shift:
  assumes k: "1000 \<le> k" "k \<le> 51000"
    and d: "of_int lo \<le> d" "d \<le> of_int hi"
    and b: "- 15 \<le> lo" "hi \<le> 15"
  shows "k + 100 * lo \<le> centsOf (toDouble (toDouble (of_int k / 100) + d))"
    and "centsOf (toDouble (toDouble (of_int k / 100) + d)) \<le> k + 100 * hi"
proof -
  define e :: real where "e = 1 / 2 ^ 37"
  define p where "p = toDouble (of_int k / 100)"
  define y where "y = toDouble (p + d)"
  have e: "0 < e" "e < 1 / 1000" by (simp_all add: e_def)
  have kr: "1000 \<le> real_of_int k" "real_of_int k \<le> 51000" using k by simp_all
  have lh: "- 15 \<le> real_of_int lo" "real_of_int hi \<le> 15" using b by simp_all
  have "\<bar>toDouble (of_int k / 100) - of_int k / 100\<bar> \<le> e"
    unfolding e_def using kr by (intro toDouble_near) simp
  then have p: "of_int k / 100 - e \<le> p" "p \<le> of_int k / 100 + e"
    by (simp_all add: p_def abs_le_iff)
  have "\<bar>toDouble (p + d) - (p + d)\<bar> \<le> e"
    unfolding e_def using p kr lh d e by (intro toDouble_near) (simp add: abs_le_iff)
  then have y: "p + d - e \<le> y" "y \<le> p + d + e"
    by (simp_all add: y_def abs_le_iff)
  have "\<bar>toDouble (y * 100) - y * 100\<bar> \<le> e"
    unfolding e_def using y p kr lh d e by (intro toDouble_near) (simp add: abs_le_iff)
  then have z: "y * 100 - e \<le> toDouble (y * 100)" "toDouble (y * 100) \<le> y * 100 + e"
    by (simp_all add: abs_le_iff)
  from z y p d e have "of_int (k + 100 * lo) \<le> toDouble (y * 100) + 1 / 2"
    by simp
  then have "k + 100 * lo \<le> \<lfloor>toDouble (y * 100) + 1 / 2\<rfloor>" by (simp only: le_floor_iff)
  then show "k + 100 * lo \<le> centsOf (toDouble (toDouble (of_int k / 100) + d))"
    by (simp add: centsOf_def y_def p_def)
  from z y p d e have "toDouble (y * 100) + 1 / 2 < of_int (k + 100 * hi + 1)"
    by simp
  then have "\<lfloor>toDouble (y * 100) + 1 / 2\<rfloor> < k + 100 * hi + 1" by (simp only: floor_less_iff)
  then show "centsOf (toDouble (toDouble (of_int k / 100) + d)) \<le> k + 100 * hi"
    by (simp add: centsOf_def y_def p_def)
qed

lemma genStock_price:
  "price (fst (genStock i g)) = roundCents (toDouble (toDouble (g 0 * 500) + 10))"
  by (simp add: genStock_def Math_random_def Let_def)

lemma genStock_openPrice:
  "openPrice (fst (genStock i g)) =
     roundCents (toDouble (price (fst (genStock i g)) + toDouble (toDouble (g 1 - 0.5) * 20)))"
  by (simp add: genStock_def Math_random_def Let_def)

lemma genStock_dayHigh:
  "dayHigh (fst (genStock i g)) =
     roundCents (toDouble (price (fst (genStock i g)) + toDouble (g 2 * 15)))"
  by (simp add: genStock_def Math_random_def Let_def eval_nat_numeral)

lemma genStock_dayLow:
  "dayLow (fst (genStock i g)) =
     roundCents (toDouble (price (fst (genStock i g)) - toDouble (g 3 * 15)))"
  by (simp add: genStock_def Math_random_def Let_def eval_nat_numeral)

lemma genStock_volume:
  "volume (fst (genStock i g)) = Math_floor (toDouble (g 4 * 10000000)) + 100000"
  by (simp add: genStock_def Math_random_def Let_def eval_nat_numeral)

lemma genStock_marketCap:
  "marketCap (fst (genStock i g)) = Math_floor (toDouble (g 5 * 1000000000)) + 10000000"
  by (simp add: genStock_def Math_random_def Let_def eval_nat_numeral)

text \<open>The generated price is the double nearest to a whole number of cents.\<close>

lemma genStock_price_cents:
  assumes "unit_draws g"
  obtains k where "1000 \<le> k" and "k \<le> 51000"
    and "price (fst (genStock i g)) = toDouble (of_int k / 100)"
proof -
  define y where "y = toDouble (toDouble (g 0 * 500) + 10)"
  from assms have r: "0 \<le> g 0" "g 0 < 1" by (simp_all add: unit_draws_def)
  have "of_int 0 \<le> toDouble (g 0 * 500) \<and> toDouble (g 0 * 500) \<le> of_int 500"
    using r by (intro toDouble_between) simp_all
  then have "of_int 10 \<le> toDouble (g 0 * 500) + 10 \<and> toDouble (g 0 * 500) + 10 \<le> of_int 510"
    by simp
  then have "of_int 10 \<le> y \<and> y \<le> of_int 510"
    unfolding y_def by (intro toDouble_between) simp_all
  then have "of_int 1000 \<le> y * 100" "y * 100 \<le> of_int 51000" by simp_all
  then have "1000 \<le> centsOf y" "centsOf y \<le> 51000"
    by (rule centsOf_bounds, simp, simp)+
  moreover have "price (fst (genStock i g)) = toDouble (of_int (centsOf y) / 100)"
    by (simp add: genStock_price roundCents_cents y_def)
  ultimately show thesis by (rule that)
qed

lemma genStock_price_bounds:
  assumes "unit_draws g"
  shows "10 \<le> price (fst (genStock i g))" and "price (fst (genStock i g)) \<le> 510"
proof -
  from assms obtain k where k: "1000 \<le> k" "k \<le> 51000"
    and p: "price (fst (genStock i g)) = toDouble (of_int k / 100)"
    by (rule genStock_price_cents)
  from k have "of_int 10 \<le> real_of_int k / 100" "real_of_int k / 100 \<le> of_int 510" by simp_all
  then have "of_int 10 \<le> toDouble (of_int k / 100) \<and> toDouble (of_int k / 100) \<le> of_int 510"
    by (rule toDouble_between) simp_all
  then show "10 \<le> price (fst (genStock i g))" "price (fst (genStock i g)) \<le> 510"
    by (simp_all add: p)
qed

text \<open>
  The generated opening price is the double nearest to a whole number of cents as well,
  at most 1000 cents from the price's.
\<close>

lemma genStock_openPrice_cents:
  assumes "unit_draws g"
  obtains k m where "1000 \<le> k" and "k \<le> 51000" and "\<bar>m - k\<bar> \<le> 1000"
    and "price (fst (genStock i g)) = toDouble (of_int k / 100)"
    and "openPrice (fst (genStock i g)) = toDouble (of_int m / 100)"
proof -
  from assms obtain k where k: "1000 \<le> k" "k \<le> 51000"
    and p: "price (fst (genStock i g)) = toDouble (of_int k / 100)"
    by (rule genStock_price_cents)
  define d where "d = toDouble (toDouble (g 1 - 0.5) * 20)"
  define m where "m = centsOf (toDouble (toDouble (of_int k / 100) + d))"
  from assms have r: "0 \<le> g 1" "g 1 < 1" by (simp_all add: unit_draws_def)
  have "toDouble (- (1 / 2)) \<le> toDouble (g 1 - 0.5)" "toDouble (g 1 - 0.5) \<le> toDouble (1 / 2)"
    using r by (intro toDouble_mono, simp)+
  then have "- (1 / 2) \<le> toDouble (g 1 - 0.5)" "toDouble (g 1 - 0.5) \<le> 1 / 2"
    by (simp_all add: toDouble_minus)
  then have "of_int (- 10) \<le> toDouble (g 1 - 0.5) * 20" "toDouble (g 1 - 0.5) * 20 \<le> of_int 10"
    by simp_all
  then have "of_int (- 10) \<le> d \<and> d \<le> of_int 10"
    unfolding d_def by (rule toDouble_between) simp_all
  then have d: "of_int (- 10) \<le> d" "d \<le> of_int 10" by simp_all
  have "k + 100 * (- 10) \<le> m" "m \<le> k + 100 * 10"
    unfolding m_def using k d by (rule centsOf_shift, simp, simp)+
  then have "\<bar>m - k\<bar> \<le> 1000" by simp
  moreover have "openPrice (fst (genStock i g)) = toDouble (of_int m / 100)"
    by (simp add: genStock_openPrice roundCents_cents m_def d_def p)
  ultimately show thesis using k p by (intro that [of k m])
qed

lemma genStock_openPrice_near:
  assumes "unit_draws g"
  shows "\<bar>openPrice (fst (genStock i g)) - price (fst (genStock i g))\<bar> \<le> 10 + 1 / 2 ^ 43"
proof -
  from assms obtain k m where k: "1000 \<le> k" "k \<le> 51000" and m: "\<bar>m - k\<bar> \<le> 1000"
    and p: "price (fst (genStock i g)) = toDouble (of_int k / 100)"
    and q: "openPrice (fst (genStock i g)) = toDouble (of_int m / 100)"
    by (rule genStock_openPrice_cents)
  from k m have small: "\<bar>real_of_int k / 100\<bar> < 1024" "\<bar>real_of_int m / 100\<bar> < 1024"
    by (simp_all add: abs_less_iff)
  define e :: real where "e = 1 / 2 ^ 44"
  have e: "10 + 1 / 2 ^ 43 = 10 + 2 * e" by (simp add: e_def)
  have "\<bar>toDouble (of_int k / 100) - of_int k / 100\<bar> \<le> e"
    "\<bar>toDouble (of_int m / 100) - of_int m / 100\<bar> \<le> e"
    unfolding e_def
    by (rule toDouble_near_small [OF small(1)], rule toDouble_near_small [OF small(2)])
  moreover from m have "\<bar>real_of_int m / 100 - real_of_int k / 100\<bar> \<le> 10"
    by (simp add: abs_le_iff)
  ultimately show ?thesis
    unfolding p q e by linarith
qed

lemma genStock_high_low:
  assumes "unit_draws g"
  shows "dayLow (fst (genStock i g)) \<le> price (fst (genStock i g))"
    and "price (fst (genStock i g)) \<le> dayHigh (fst (genStock i g))"
proof -
  from assms obtain k where k: "1000 \<le> k" "k \<le> 51000"
    and p: "price (fst (genStock i g)) = toDouble (of_int k / 100)"
    by (rule genStock_price_cents)
  from assms have r: "0 \<le> g 2" "g 2 < 1" "0 \<le> g 3" "g 3 < 1" by (simp_all add: unit_draws_def)
  have "of_int 0 \<le> toDouble (g 2 * 15) \<and> toDouble (g 2 * 15) \<le> of_int 15"
    using r by (intro toDouble_between) simp_all
  then have up: "of_int 0 \<le> toDouble (g 2 * 15)" "toDouble (g 2 * 15) \<le> of_int 15" by simp_all
  have "of_int 0 \<le> toDouble (g 3 * 15) \<and> toDouble (g 3 * 15) \<le> of_int 15"
    using r by (intro toDouble_between) simp_all
  then have down: "of_int (- 15) \<le> - toDouble (g 3 * 15)" "- toDouble (g 3 * 15) \<le> of_int 0"
    by simp_all
  have "k + 100 * 0 \<le> centsOf (toDouble (toDouble (of_int k / 100) + toDouble (g 2 * 15)))"
    using k up by (rule centsOf_shift) simp_all
  then have "real_of_int k / 100
      \<le> of_int (centsOf (toDouble (toDouble (of_int k / 100) + toDouble (g 2 * 15)))) / 100"
    by simp
  then have "toDouble (of_int k / 100) \<le> dayHigh (fst (genStock i g))"
    unfolding genStock_dayHigh roundCents_cents p by (rule toDouble_mono)
  then show "price (fst (genStock i g)) \<le> dayHigh (fst (genStock i g))" by (simp only: p)
  have "centsOf (toDouble (toDouble (of_int k / 100) + - toDouble (g 3 * 15))) \<le> k + 100 * 0"
    using k down by (rule centsOf_shift) simp_all
  then have "of_int (centsOf (toDouble (toDouble (of_int k / 100) - toDouble (g 3 * 15)))) / 100
      \<le> real_of_int k / 100"
    by simp
  then have "dayLow (fst (genStock i g)) \<le> toDouble (of_int k / 100)"
    unfolding genStock_dayLow roundCents_cents p by (rule toDouble_mono)
  then show "dayLow (fst (genStock i g)) \<le> price (fst (genStock i g))" by (simp only: p)
qed

lemma genStock_volume_bounds:
  assumes "unit_draws g"
  shows "100000 \<le> volume (fst (genStock i g))" and "volume (fst (genStock i g)) \<le> 10100000"
proof -
  from assms have r: "0 \<le> g 4" "g 4 < 1" by (simp_all add: unit_draws_def)
  have "of_int 0 \<le> toDouble (g 4 * 10000000) \<and> toDouble (g 4 * 10000000) \<le> of_int 10000000"
    using r by (intro toDouble_between) simp_all
  then have "0 \<le> \<lfloor>toDouble (g 4 * 10000000)\<rfloor>" "\<lfloor>toDouble (g 4 * 10000000)\<rfloor> \<le> 10000000"
    by (simp_all add: le_floor_iff floor_le_iff)
  then show "100000 \<le> volume (fst (genStock i g))" "volume (fst (genStock i g)) \<le> 10100000"
    by (simp_all add: genStock_volume Math_floor_def)
qed

lemma genStock_marketCap_bounds:
  assumes "unit_draws g"
  shows "10000000 \<le> marketCap (fst (genStock i g))"
    and "marketCap (fst (genStock i g)) \<le> 1010000000"
proof -
  from assms have r: "0 \<le> g 5" "g 5 < 1" by (simp_all add: unit_draws_def)
  have "of_int 0 \<le> toDouble (g 5 * 1000000000) \<and> toDouble (g 5 * 1000000000) \<le> of_int 1000000000"
    using r by (intro toDouble_between) simp_all
  then have "0 \<le> \<lfloor>toDouble (g 5 * 1000000000)\<rfloor>" "\<lfloor>toDouble (g 5 * 1000000000)\<rfloor> \<le> 1000000000"
    by (simp_all add: le_floor_iff floor_le_iff)
  then show "10000000 \<le> marketCap (fst (genStock i g))"
    "marketCap (fst (genStock i g)) \<le> 1010000000"
    by (simp_all add: genStock_marketCap Math_floor_def)
qed

lemma generateMockData_record:
  assumes "s \<in> set (fst (generateMockData count g))"
  obtains k where "k < count" and "s = fst (genStock k (draws_from (6 * k) g))"
proof -
  from assms obtain k where "k < length (fst (generateMockData count g))"
    and "s = fst (generateMockData count g) ! k"
    by (auto simp: in_set_conv_nth)
  then have "k < count" "s = fst (genStock k (draws_from (6 * k) g))"
    by (simp_all add: generateMockData_length generateMockData_nth)
  then show thesis by (rule that)
qed

section \<open>The claims about the generator and the price floor\<close>

lemma generateMockData_price_ge_1:
  assumes "unit_draws g" and "s \<in> set (fst (generateMockData count g))"
  shows "1 \<le> price s"
proof -
  from assms(2) obtain k where s: "s = fst (genStock k (draws_from (6 * k) g))"
    by (rule generateMockData_record)
  have "unit_draws (draws_from (6 * k) g)" using assms(1) by (rule unit_draws_from)
  then have "10 \<le> price s" unfolding s by (rule genStock_price_bounds)
  then show ?thesis by simp
qed

text \<open>
  Claim C1. After any number of firings of the timer every record's price is at least 1.
  After at least one firing this holds whatever the collection was before and whatever
  the draws are, since each update stores \<open>round (max 1 \<dots> * 100) / 100\<close>. For no firing
  at all it holds when it held at the start, as it does for the generated collection
  (whose prices are at least 10); the second part is the application's own run, from the
  generated collection on.
\<close>

theorem price_floor_after_ticks:
  "((0 < n \<or> (\<forall>s\<in>set prevStocks. 1 \<le> price s)) \<longrightarrow>
      (\<forall>s\<in>set (fst (ticks n g prevStocks)). 1 \<le> price s))
   \<and> (unit_draws g0 \<longrightarrow>
      (\<forall>s\<in>set (fst (ticks n g (fst (generateMockData count g0)))). 1 \<le> price s))"
proof (intro conjI impI)
  assume "0 < n \<or> (\<forall>s\<in>set prevStocks. 1 \<le> price s)"
  then show "\<forall>s\<in>set (fst (ticks n g prevStocks)). 1 \<le> price s"
  proof
    assume "0 < n"
    then obtain m where n: "n = Suc m" by (cases n) auto
    have "\<forall>s\<in>set (fst (mapStocks g prevStocks)). 1 \<le> price s"
      by (simp add: mapStocks_price_ge_1)
    then have "\<forall>s\<in>set (fst (ticks m (snd (mapStocks g prevStocks)) (fst (mapStocks g prevStocks)))).
        1 \<le> price s"
      by (rule ticks_keep_floor)
    then show ?thesis by (simp add: n split_beta)
  next
    assume "\<forall>s\<in>set prevStocks. 1 \<le> price s"
    then show ?thesis by (rule ticks_keep_floor)
  qed
next
  assume "unit_draws g0"
  then have "\<forall>s\<in>set (fst (generateMockData count g0)). 1 \<le> price s"
    by (simp add: generateMockData_price_ge_1)
  then show "\<forall>s\<in>set (fst (ticks n g (fst (generateMockData count g0)))). 1 \<le> price s"
    by (rule ticks_keep_floor)
qed

lemma unit_half_draws: "unit_draws half_draws"
  by (simp add: unit_draws_def half_draws_def)


lemma generateMockData_one: "fst (generateMockData (Suc 0) g) = [fst (genStock 0 g)]"
  by (simp add: generateMockData_def generateLoop.simps [of _ 0]
      generateLoop.simps [of _ "Suc 0"] split_beta)

text \<open>
  The record at the floor, two firings with every draw zero (a change of \<open>-2.5\<close> each
  time): the price stays 1. And a generated record after two firings.
\<close>

theorem price_floor_after_ticks_witness:
  "0 < (2::nat)
   \<and> price (hd (fst (ticks 2 zero_draws [flooredStock]))) = 1
   \<and> unit_draws half_draws
   \<and> 1 \<le> price (hd (fst (ticks 2 zero_draws (fst (generateMockData 1 half_draws)))))"
proof -
  have t: "fst (ticks 2 zero_draws [s]) = [updateStock 0 (updateStock 0 s)]" for s
    by (simp add: numeral_2_eq_2 Math_random_def zero_draws_def split_beta)
  have v: "price (updateStock 0 (updateStock 0 flooredStock)) = 1"
    by (simp add: updateStock_def flooredStock_def Math_round_def)
  have m1: "hd (fst (ticks 2 zero_draws [flooredStock])) \<in> set (fst (ticks 2 zero_draws [flooredStock]))"
    by (simp add: t)
  have m2: "hd (fst (ticks 2 zero_draws (fst (generateMockData 1 half_draws))))
      \<in> set (fst (ticks 2 zero_draws (fst (generateMockData 1 half_draws))))"
    by (simp add: t generateMockData_one)
  from price_floor_after_ticks [of 2 "[flooredStock]" zero_draws half_draws 1] m1 m2
    unit_half_draws
  show ?thesis by (simp add: t v)
qed

lemma unit_edge_draws: "unit_draws edge_draws"
  by (simp add: unit_draws_def edge_draws_def)

text \<open>The doubles on the way to the first record of \<open>edge_draws\<close>.\<close>

lemma edge_doubles:
  "toDouble (125 / 1024) = 125 / 1024"
  "toDouble (10365 / 1024) = 10365 / 1024"
  "toDouble (259125 / 256) = 259125 / 256"
  "toDouble (253 / 25) = 5697053528623677 / 562949953421312"
  "toDouble (2047 / 4096) = 2047 / 4096"
  "toDouble (10235 / 1024) = 10235 / 1024"
  "toDouble (5697053528623677 / 562949953421312 + 10235 / 1024)
     = 2830951070941839 / 140737488355328"
  "toDouble (70773776773545975 / 35184372088832) = 8846722096693247 / 4398046511104"
  "toDouble (503 / 25) = 5663276531418399 / 281474976710656"
proof -
  show "toDouble (125 / 1024) = 125 / 1024"
    using toDouble_dyadic [of 125 10] by (simp add: denormExp_def)
  show "toDouble (10365 / 1024) = 10365 / 1024"
    using toDouble_dyadic [of 10365 10] by (simp add: denormExp_def)
  show "toDouble (259125 / 256) = 259125 / 256"
    using toDouble_dyadic [of 259125 8] by (simp add: denormExp_def)
  show "toDouble (253 / 25) = 5697053528623677 / 562949953421312"
    by (subst toDouble_eval [where n = 3]) (simp_all add: roundEven_eval)
  show "toDouble (2047 / 4096) = 2047 / 4096"
    using toDouble_dyadic [of 2047 12] by (simp add: denormExp_def)
  show "toDouble (10235 / 1024) = 10235 / 1024"
    using toDouble_dyadic [of 10235 10] by (simp add: denormExp_def)
  show "toDouble (5697053528623677 / 562949953421312 + 10235 / 1024)
     = 2830951070941839 / 140737488355328"
    by (subst toDouble_eval [where n = 4]) (simp_all add: roundEven_eval)
  show "toDouble (70773776773545975 / 35184372088832) = 8846722096693247 / 4398046511104"
    by (subst toDouble_eval [where n = 10]) (simp_all add: roundEven_eval)
  show "toDouble (503 / 25) = 5663276531418399 / 281474976710656"
    by (subst toDouble_eval [where n = 4]) (simp_all add: roundEven_eval)
qed

lemma edge_price: "price (fst (genStock 0 edge_draws)) = 5697053528623677 / 562949953421312"
proof -
  have "toDouble (toDouble (edge_draws 0 * 500) + 10) = 10365 / 1024"
    by (simp add: edge_draws_def edge_doubles)
  moreover have "roundCents (10365 / 1024) = 5697053528623677 / 562949953421312"
    by (simp add: roundCents_def Math_round_def edge_doubles)
  ultimately show ?thesis by (simp only: genStock_price)
qed

lemma edge_openPrice:
  "openPrice (fst (genStock 0 edge_draws)) = 5663276531418399 / 281474976710656"
proof -
  have "toDouble (toDouble (edge_draws 1 - 0.5) * 20) = 10235 / 1024"
    by (simp add: edge_draws_def edge_doubles)
  moreover have "roundCents (2830951070941839 / 140737488355328)
      = 5663276531418399 / 281474976710656"
    by (simp add: roundCents_def Math_round_def edge_doubles)
  ultimately show ?thesis
    by (simp only: genStock_openPrice edge_price edge_doubles(7))
qed

text \<open>
  Claim C4, as stated: the opening price differs from the price by at most 10. The two
  are doubles nearest to whole numbers of cents, and the doubles of two values that are
  exactly 10 apart can be more than 10 apart. For the draws \<open>1 / 4096\<close> and
  \<open>4095 / 4096\<close> the record's price is the double nearest to 10.12 and its opening price
  the double nearest to 20.12, which is more than 10 above.
\<close>

theorem generateMockData_open_beyond_10:
  "unit_draws edge_draws
   \<and> price (fst (generateMockData 1 edge_draws) ! 0) = 5697053528623677 / 562949953421312
   \<and> price (fst (generateMockData 1 edge_draws) ! 0) = toDouble (1012 / 100)
   \<and> openPrice (fst (generateMockData 1 edge_draws) ! 0) = 5663276531418399 / 281474976710656
   \<and> openPrice (fst (generateMockData 1 edge_draws) ! 0) = toDouble (2012 / 100)
   \<and> 10 < \<bar>openPrice (fst (generateMockData 1 edge_draws) ! 0)
            - price (fst (generateMockData 1 edge_draws) ! 0)\<bar>"
  using unit_edge_draws
  by (simp add: generateMockData_one edge_price edge_openPrice edge_doubles)

text \<open>
  Claim C4, amended. With every draw in the unit interval, each generated record has
  its price between 10 and 510; its price and its opening price are the doubles nearest
  to \<open>k / 100\<close> and \<open>m / 100\<close> for whole numbers of cents \<open>k\<close> and \<open>m\<close> at most 1000
  apart, so that they differ by at most 10 plus a rounding error of the doubles, below
  2 to the power \<open>-43\<close>; its volume lies between 100,000 and 10,100,000 and its market
  capitalisation between 10,000,000 and 1,010,000,000 (both are integers by their type:
  \<open>Math_floor\<close> of a product plus an integer); and its price lies between its day-low
  and its day-high.
\<close>

theorem generateMockData_ranges:
  assumes "unit_draws g" and "s \<in> set (fst (generateMockData count g))"
  shows "10 \<le> price s \<and> price s \<le> 510
       \<and> (\<exists>k m. price s = toDouble (of_int k / 100) \<and> openPrice s = toDouble (of_int m / 100)
             \<and> \<bar>m - k\<bar> \<le> 1000)
       \<and> \<bar>openPrice s - price s\<bar> \<le> 10 + 1 / 2 ^ 43
       \<and> 100000 \<le> volume s \<and> volume s \<le> 10100000
       \<and> 10000000 \<le> marketCap s \<and> marketCap s \<le> 1010000000
       \<and> dayLow s \<le> price s \<and> price s \<le> dayHigh s"
proof -
  from assms(2) obtain i where s: "s = fst (genStock i (draws_from (6 * i) g))"
    by (rule generateMockData_record)
  have u: "unit_draws (draws_from (6 * i) g)" using assms(1) by (rule unit_draws_from)
  have "\<exists>k m. price s = toDouble (of_int k / 100) \<and> openPrice s = toDouble (of_int m / 100)
      \<and> \<bar>m - k\<bar> \<le> 1000"
    unfolding s using genStock_openPrice_cents [OF u] by metis
  then show ?thesis
    unfolding s
    using genStock_price_bounds [OF u] genStock_openPrice_near [OF u]
      genStock_volume_bounds [OF u] genStock_marketCap_bounds [OF u] genStock_high_low [OF u]
    by blast
qed

text \<open>
  The first generated record when every draw is one half (a price and an opening price
  of 260), and the one for the draws above, whose two prices are more than 10 and at
  most 10 plus the rounding error apart.
\<close>

theorem generateMockData_ranges_witness:
  "unit_draws half_draws
   \<and> fst (genStock 0 half_draws) \<in> set (fst (generateMockData 1 half_draws))
   \<and> price (fst (genStock 0 half_draws)) = 260
   \<and> openPrice (fst (genStock 0 half_draws)) = 260
   \<and> 100000 \<le> volume (fst (genStock 0 half_draws))
   \<and> volume (fst (genStock 0 half_draws)) \<le> 10100000
   \<and> 10000000 \<le> marketCap (fst (genStock 0 half_draws))
   \<and> marketCap (fst (genStock 0 half_draws)) \<le> 1010000000
   \<and> dayLow (fst (genStock 0 half_draws)) \<le> 260
   \<and> 260 \<le> dayHigh (fst (genStock 0 half_draws))
   \<and> unit_draws edge_draws
   \<and> fst (genStock 0 edge_draws) \<in> set (fst (generateMockData 1 edge_draws))
   \<and> \<bar>openPrice (fst (genStock 0 edge_draws)) - price (fst (genStock 0 edge_draws))\<bar>
       \<le> 10 + 1 / 2 ^ 43"
proof -
  have m: "fst (genStock 0 g) \<in> set (fst (generateMockData 1 g))" for g
    by (simp add: generateMockData_one)
  have p: "price (fst (genStock 0 half_draws)) = 260"
    by (simp add: genStock_price half_draws_def roundCents_def Math_round_def toDouble_numeral)
  have q: "openPrice (fst (genStock 0 half_draws)) = 260"
    by (simp add: genStock_openPrice p)
      (simp add: half_draws_def roundCents_def Math_round_def toDouble_numeral)
  from generateMockData_ranges [OF unit_half_draws m]
    generateMockData_ranges [OF unit_edge_draws m]
    unit_half_draws unit_edge_draws m p q
  show ?thesis by simp
qed

section \<open>Decimal text\<close>

lemma digitValue_digitChar: "d < 10 \<Longrightarrow> digitValue (digitChar d) = d"
  by (simp add: digitValue_def digitChar_def)

lemma stringToNat_natToString: "stringToNat (natToString n) = n"
proof (induction n rule: natToString.induct)
  case (1 n)
  show ?case
  proof (cases "n < 10")
    case True
    then show ?thesis
      by (subst natToString.simps) (simp add: stringToNat_def digitValue_digitChar)
  next
    case False
    with "1.IH" have "stringToNat (natToString (n div 10)) = n div 10" by simp
    with False show ?thesis
      by (subst natToString.simps) (simp add: stringToNat_def digitValue_digitChar)
  qed
qed

lemma natToString_inj: "natToString m = natToString n \<Longrightarrow> m = n"
  by (metis stringToNat_natToString)

lemma genStock_symbol:
  "symbol (fst (genStock i g)) =
     toUpperCase (substring0 3 (companies ! (i mod length companies))) @ natToString i"
  by (simp add: genStock_def Math_random_def Let_def)

lemma companies_long: "c \<in> set companies \<Longrightarrow> 3 \<le> length c"
  by (auto simp: companies_def)

lemma symbol_prefix_length:
  "length (toUpperCase (substring0 3 (companies ! (i mod length companies)))) = 3"
proof -
  have "i mod length companies < length companies" by (simp add: companies_def)
  then have "companies ! (i mod length companies) \<in> set companies" by (rule nth_mem)
  then have "3 \<le> length (companies ! (i mod length companies))" by (rule companies_long)
  then show ?thesis by (simp add: toUpperCase_def substring0_def)
qed

lemma genStock_symbol_inj:
  assumes "symbol (fst (genStock i g)) = symbol (fst (genStock j g'))"
  shows "i = j"
proof -
  from assms have "drop 3 (symbol (fst (genStock i g))) = drop 3 (symbol (fst (genStock j g')))"
    by simp
  then have "natToString i = natToString j"
    by (simp add: genStock_symbol symbol_prefix_length)
  then show ?thesis by (rule natToString_inj)
qed

text \<open>
  Claim C10. The ticker symbols of the generated records are pairwise different: a
  symbol is three characters followed by the decimal text of the loop index.
\<close>

theorem generateMockData_symbols_distinct:
  "distinct (map symbol (fst (generateMockData count g)))"
proof -
  have "map symbol (fst (generateMockData count g)) ! i \<noteq> map symbol (fst (generateMockData count g)) ! j"
    if "i < count" "j < count" "i \<noteq> j" for i j
  proof
    assume "map symbol (fst (generateMockData count g)) ! i = map symbol (fst (generateMockData count g)) ! j"
    with that have "symbol (fst (genStock i (draws_from (6 * i) g)))
        = symbol (fst (genStock j (draws_from (6 * j) g)))"
      by (simp add: generateMockData_length generateMockData_nth)
    then have "i = j" by (rule genStock_symbol_inj)
    with that show False by simp
  qed
  then show ?thesis
    by (simp add: distinct_conv_nth generateMockData_length)
qed

text \<open>
  Claim C7. The status text has three values, with the boundaries at 20 and 50: below 20
  it is the poor text, from 20 to 49 the reduced text, from 50 on the optimal text.
\<close>

theorem getStatusText_tiers:
  "getStatusText 19 = textPoor \<and> getStatusText 20 = textReduced
   \<and> getStatusText 49 = textReduced \<and> getStatusText 50 = textOptimal
   \<and> getStatusText fps =
       (if fps < 20 then textPoor else if fps < 50 then textReduced else textOptimal)
   \<and> range getStatusText = {textPoor, textReduced, textOptimal}
   \<and> card (range getStatusText) = 3"
proof -
  have g: "getStatusText k = (if k < 20 then textPoor else if k < 50 then textReduced else textOptimal)"
    for k
    by (simp add: getStatusText_def)
  have "range getStatusText \<subseteq> {textPoor, textReduced, textOptimal}"
    by (auto simp: g)
  moreover have "textPoor = getStatusText 19" "textReduced = getStatusText 20"
    "textOptimal = getStatusText 50"
    by (simp_all add: g)
  then have "{textPoor, textReduced, textOptimal} \<subseteq> range getStatusText"
    by (metis empty_subsetI insert_subset rangeI)
  ultimately have r: "range getStatusText = {textPoor, textReduced, textOptimal}" by blast
  have d: "textPoor \<noteq> textReduced" "textReduced \<noteq> textOptimal" "textPoor \<noteq> textOptimal"
    by (simp_all add: textPoor_def textReduced_def textOptimal_def)
  have "card {textPoor, textReduced, textOptimal} = 3" using d by simp
  with r show ?thesis by (simp add: g)
qed

text \<open>
  Claim C8. Two clicks on a row's watchlist button restore every row's flag, and with it
  the button's class and label; one click does change the clicked row's flag. Neither
  the watchlist click nor the trade click changes the collection.
\<close>

theorem clicks_leave_collection:
  "watchlisted (watchlistClick props (watchlistClick props st)) = watchlisted st
   \<and> watchlistClassName (watchlisted (watchlistClick props (watchlistClick props st)) k)
       = watchlistClassName (watchlisted st k)
   \<and> watchlistLabel (watchlisted (watchlistClick props (watchlistClick props st)) k)
       = watchlistLabel (watchlisted st k)
   \<and> watchlisted (watchlistClick props st) (id_num props) = (\<not> watchlisted st (id_num props))
   \<and> stocks (watchlistClick props st) = stocks st
   \<and> stocks (tradeClick props st) = stocks st
   \<and> watchlisted (tradeClick props st) = watchlisted st"
proof -
  have "watchlisted (watchlistClick props (watchlistClick props st)) = watchlisted st"
    by (simp add: watchlistClick_def fun_eq_iff)
  then show ?thesis
    by (simp add: watchlistClick_def tradeClick_def)
qed

text \<open>
  Claim C9. For a record whose opening price is 0 the percentage change is not a finite
  number: it is an infinity, or not-a-number when the price is 0 as well, and the row
  prints it as such. Nothing in the computation tests the divisor.
\<close>

theorem changePercent_zero_open:
  assumes "openPrice props = 0"
  shows "\<not> isFinite (changePercent props)
       \<and> changePercent props =
           (if price props = 0 then NaN else if 0 < price props then PosInfinity else NegInfinity)
       \<and> changePercentText props \<in> {''(Infinity%)'', ''(-Infinity%)'', ''(NaN%)''}"
  using assms
  by (simp add: changePercent_def changePercentText_def priceChange_def divide_number_def)

text \<open>
  The generator's first record when every draw is zero: a price of 10 and an opening
  price of 0.
\<close>

theorem changePercent_zero_open_witness:
  "openPrice (fst (genStock 0 zero_draws)) = 0
   \<and> \<not> isFinite (changePercent (fst (genStock 0 zero_draws)))
   \<and> changePercent (fst (genStock 0 zero_draws)) = PosInfinity
   \<and> changePercentText (fst (genStock 0 zero_draws)) = ''(Infinity%)''"
proof -
  have p: "price (fst (genStock 0 zero_draws)) = 10"
    by (simp add: genStock_price zero_draws_def roundCents_def Math_round_def toDouble_numeral)
  have z: "openPrice (fst (genStock 0 zero_draws)) = 0"
    by (simp add: genStock_openPrice p)
      (simp add: zero_draws_def roundCents_def Math_round_def toDouble_minus
        toDouble_numeral)
  from changePercent_zero_open [OF z] z p show ?thesis
    by (simp add: changePercentText_def)
qed

section \<open>The update in the store\<close>

lemma mapStocksRefs_length: "length (fst (mapStocksRefs g h ps)) = length ps"
  by (induction ps arbitrary: g h) (simp_all add: split_beta Let_def)

lemma mapStocksRefs_nth:
  "k < length ps \<Longrightarrow> fst (mapStocksRefs g h ps) ! k = length h + k"
proof (induction ps arbitrary: g h k)
  case Nil
  then show ?case by simp
next
  case (Cons p ps)
  show ?case
  proof (cases k)
    case 0
    then show ?thesis by (simp add: alloc_def split_beta Let_def)
  next
    case (Suc m)
    with Cons.prems have "m < length ps" by simp
    from Cons.IH [OF this, of "\<lambda>n. g (Suc n)" "h @ [updateStock (g 0) (h ! p)]"] Suc
    show ?thesis
      by (simp add: Math_random_def alloc_def split_beta Let_def)
  qed
qed

lemma mapStocksRefs_store:
  assumes "\<forall>p\<in>set ps. p < length h"
  shows "fst (snd (mapStocksRefs g h ps)) = h @ fst (mapStocks g (map ((!) h) ps))"
  using assms
proof (induction ps arbitrary: g h)
  case Nil
  then show ?case by simp
next
  case (Cons p ps)
  define h1 where "h1 = h @ [updateStock (g 0) (h ! p)]"
  from Cons.prems have valid: "\<forall>q\<in>set ps. q < length h" by simp
  then have "\<forall>q\<in>set ps. q < length h1" by (auto simp: h1_def)
  then have IH: "fst (snd (mapStocksRefs (\<lambda>n. g (Suc n)) h1 ps))
      = h1 @ fst (mapStocks (\<lambda>n. g (Suc n)) (map ((!) h1) ps))"
    by (rule Cons.IH)
  have same: "map ((!) h1) ps = map ((!) h) ps"
    using valid by (simp add: h1_def nth_append)
  have "fst (snd (mapStocksRefs (\<lambda>n. g (Suc n)) h1 ps))
      = h1 @ fst (mapStocks (\<lambda>n. g (Suc n)) (map ((!) h) ps))"
    using IH by (simp only: same)
  then show ?case
    by (simp add: Math_random_def alloc_def split_beta Let_def h1_def)
qed

lemma mapStocksRefs_rng: "snd (snd (mapStocksRefs g h ps)) = draws_from (length ps) g"
proof (induction ps arbitrary: g h)
  case Nil
  then show ?case by (simp add: draws_from_def)
next
  case (Cons p ps)
  from Cons.IH [of "\<lambda>n. g (Suc n)" "h @ [updateStock (g 0) (h ! p)]"] show ?case
    by (simp add: Math_random_def alloc_def split_beta Let_def draws_from_def)
qed

lemma updateStock_frame:
  "id_num (updateStock r stock) = id_num stock"
  "symbol (updateStock r stock) = symbol stock"
  "company (updateStock r stock) = company stock"
  "sector (updateStock r stock) = sector stock"
  "exchange (updateStock r stock) = exchange stock"
  "openPrice (updateStock r stock) = openPrice stock"
  "volume (updateStock r stock) = volume stock"
  "marketCap (updateStock r stock) = marketCap stock"
  by (simp_all add: updateStock_def Let_def)

text \<open>
  Claim C6. One tick, on an array \<open>ps\<close> of references to live objects of the store \<open>h\<close>:
  the new array has the same length; each of its entries is a new object (an address the
  old store did not have), which holds the update of the old record at the same
  position, with the same identifier, symbol, company, sector, exchange, opening price,
  volume and market capitalisation; the new references are pairwise different; the old
  objects are still in the store as they were; and the identifiers of the new array are
  those of the old one, in the same order. Read by value, the new array is the result of
  \<open>mapStocks\<close> on the old one.
\<close>

theorem tick_replaces_every_record:
  assumes "mapStocksRefs g h ps = (ps', h', g')"
    and "\<forall>p\<in>set ps. p < length h"
    and "j < length ps"
  shows "length ps' = length ps
       \<and> length h \<le> ps' ! j \<and> ps' ! j < length h' \<and> ps' ! j \<notin> set ps
       \<and> distinct ps'
       \<and> h' ! (ps' ! j) = updateStock (g j) (h ! (ps ! j))
       \<and> id_num (h' ! (ps' ! j)) = id_num (h ! (ps ! j))
       \<and> symbol (h' ! (ps' ! j)) = symbol (h ! (ps ! j))
       \<and> company (h' ! (ps' ! j)) = company (h ! (ps ! j))
       \<and> sector (h' ! (ps' ! j)) = sector (h ! (ps ! j))
       \<and> exchange (h' ! (ps' ! j)) = exchange (h ! (ps ! j))
       \<and> openPrice (h' ! (ps' ! j)) = openPrice (h ! (ps ! j))
       \<and> volume (h' ! (ps' ! j)) = volume (h ! (ps ! j))
       \<and> marketCap (h' ! (ps' ! j)) = marketCap (h ! (ps ! j))
       \<and> (\<forall>p<length h. h' ! p = h ! p)
       \<and> map (\<lambda>p. id_num (h' ! p)) ps' = map (\<lambda>p. id_num (h ! p)) ps
       \<and> map ((!) h') ps' = fst (mapStocks g (map ((!) h) ps))"
proof -
  have lps': "length ps' = length ps"
    using mapStocksRefs_length [of g h ps] assms(1) by simp
  have ps': "ps' ! k = length h + k" if "k < length ps" for k
    using mapStocksRefs_nth [OF that, of g h] assms(1) by simp
  have h': "h' = h @ fst (mapStocks g (map ((!) h) ps))"
    using mapStocksRefs_store [OF assms(2), of g] assms(1) by simp
  have len: "length (fst (mapStocks g (map ((!) h) ps))) = length ps"
    by (simp add: mapStocks_length)
  have new': "h' ! (length h + k) = updateStock (g k) (h ! (ps ! k))" if "k < length ps" for k
    using that by (simp add: h' mapStocks_nth)
  have new: "h' ! (ps' ! k) = updateStock (g k) (h ! (ps ! k))" if "k < length ps" for k
    using that by (simp add: ps' new')
  have fresh: "ps' ! j \<notin> set ps"
    using assms(2,3) by (auto simp: ps')
  have dist: "distinct ps'"
    by (simp add: distinct_conv_nth lps' ps')
  have old: "\<forall>p<length h. h' ! p = h ! p"
    by (simp add: h' nth_append)
  have byval: "map ((!) h') ps' = fst (mapStocks g (map ((!) h) ps))"
    by (rule nth_equalityI) (simp_all add: lps' len new mapStocks_nth)
  have ids: "map (\<lambda>p. id_num (h' ! p)) ps' = map (\<lambda>p. id_num (h ! p)) ps"
    by (rule nth_equalityI) (simp_all add: lps' new updateStock_frame)
  from assms(3) show ?thesis
    by (simp add: new updateStock_frame fresh old byval ids lps' dist) (simp add: ps' h' len)
qed

text \<open>
  Two records in the store, every draw one half (a change of 0): the first record's
  values stay as they are, and still the new array refers to a new object, at address 2.
\<close>

theorem tick_replaces_every_record_witness:
  "(0::nat) < length [0::nat, 1]
   \<and> fst (mapStocksRefs half_draws [sampleStock, flooredStock] [0, 1]) = [2, 3]
   \<and> fst (snd (mapStocksRefs half_draws [sampleStock, flooredStock] [0, 1])) ! 2
       = updateStock (1 / 2) sampleStock
   \<and> updateStock (1 / 2) sampleStock = sampleStock
   \<and> fst (snd (mapStocksRefs half_draws [sampleStock, flooredStock] [0, 1])) ! 0 = sampleStock"
proof -
  define run where "run = mapStocksRefs half_draws [sampleStock, flooredStock] [0, 1]"
  have same: "updateStock (1 / 2) sampleStock = sampleStock"
    by (simp add: updateStock_def sampleStock_def Math_round_def)
  have refs: "fst run = [2, 3]"
    by (simp add: run_def Math_random_def alloc_def split_beta)
  have call: "mapStocksRefs half_draws [sampleStock, flooredStock] [0, 1]
      = (fst run, fst (snd run), snd (snd run))"
    by (simp add: run_def)
  have valid: "\<forall>p\<in>set [0::nat, 1]. p < length [sampleStock, flooredStock]" by simp
  have j: "(0::nat) < length [0::nat, 1]" by simp
  note T = tick_replaces_every_record [OF call valid j]
  from T have "fst (snd run) ! (fst run ! 0)
      = updateStock (half_draws 0) ([sampleStock, flooredStock] ! ([0, 1] ! 0))"
    by (elim conjE)
  then have new: "fst (snd run) ! 2 = updateStock (1 / 2) sampleStock"
    by (simp add: refs half_draws_def)
  from T have "\<forall>p<length [sampleStock, flooredStock]. fst (snd run) ! p = [sampleStock, flooredStock] ! p"
    by (elim conjE)
  then have old: "fst (snd run) ! 0 = sampleStock" by simp
  from j refs new same old show ?thesis
    unfolding run_def by (intro conjI)
qed

text \<open>
  Claim C2. The stored price is rounded to two decimals, the day-high and the day-low
  are taken against the price before the rounding, so the stored price can leave the
  day range by up to half a cent. For a record at 100 with a day range from 99 to 101:
  the draw 0.7012 moves the price to 101.006, stored as 101.01, above the day-high of
  101.006; the draw 0.2988 moves it to 98.994, stored as 98.99, below the day-low of
  98.994.
\<close>

theorem updateStock_price_outside_day_range:
  "price (updateStock (7012 / 10000) sampleStock) = 10101 / 100
   \<and> dayHigh (updateStock (7012 / 10000) sampleStock) = 101006 / 1000
   \<and> dayHigh (updateStock (7012 / 10000) sampleStock) < price (updateStock (7012 / 10000) sampleStock)
   \<and> price (updateStock (2988 / 10000) sampleStock) = 9899 / 100
   \<and> dayLow (updateStock (2988 / 10000) sampleStock) = 98994 / 1000
   \<and> price (updateStock (2988 / 10000) sampleStock) < dayLow (updateStock (2988 / 10000) sampleStock)"
  by (simp add: updateStock_def sampleStock_def Math_round_def)

text \<open>
  What does hold after every update: the price before the rounding lies in the day
  range, and the stored price is within half a cent of it.
\<close>

lemma Math_round_near: "\<bar>Math_round x - x\<bar> \<le> 1 / 2"
  unfolding Math_round_def by linarith

lemma updateStock_day_range_unrounded:
  "dayLow (updateStock r stock) \<le> max 1 (price stock + (r - 0.5) * 5)
   \<and> max 1 (price stock + (r - 0.5) * 5) \<le> dayHigh (updateStock r stock)
   \<and> \<bar>price (updateStock r stock) - max 1 (price stock + (r - 0.5) * 5)\<bar> \<le> 1 / 200"
proof -
  define newPrice where "newPrice = max 1 (price stock + (r - 0.5) * 5)"
  have "\<bar>Math_round (newPrice * 100) - newPrice * 100\<bar> \<le> 1 / 2" by (rule Math_round_near)
  then have "\<bar>Math_round (newPrice * 100) / 100 - newPrice\<bar> \<le> 1 / 200" by linarith
  then show ?thesis
    by (simp add: updateStock_def Let_def newPrice_def)
qed




section \<open>The formatters\<close>

lemma digitChar_simps:
  "digitChar 0 = CHR ''0''" "digitChar (Suc 0) = CHR ''1''" "digitChar 1 = CHR ''1''"
  "digitChar 2 = CHR ''2''" "digitChar 3 = CHR ''3''" "digitChar 4 = CHR ''4''"
  "digitChar 5 = CHR ''5''" "digitChar 6 = CHR ''6''" "digitChar 7 = CHR ''7''"
  "digitChar 8 = CHR ''8''" "digitChar 9 = CHR ''9''"
  by (simp_all add: digitChar_def char_of_eq_iff)

lemma digitChar_not_letter:
  assumes "d < 10"
  shows "digitChar d \<noteq> CHR ''K''" and "digitChar d \<noteq> CHR ''M''" and "digitChar d \<noteq> CHR ''B''"
proof -
  have "(of_char (digitChar d) :: nat) = 48 + d"
    using assms by (simp add: digitChar_def)
  with assms have "(of_char (digitChar d) :: nat) < 58" by simp
  then show "digitChar d \<noteq> CHR ''K''" "digitChar d \<noteq> CHR ''M''" "digitChar d \<noteq> CHR ''B''"
    by auto
qed

lemma natToString_last: "natToString n \<noteq> [] \<and> last (natToString n) = digitChar (n mod 10)"
  by (subst (1 2) natToString.simps) simp

lemma toFixed2_shape:
  "\<exists>w a b. toFixed2 x = w @ ''.'' @ [digitChar a, digitChar b] \<and> a < 10 \<and> b < 10"
proof -
  define n where "n = nat \<lfloor>\<bar>x\<bar> * 100 + 1 / 2\<rfloor>"
  have "toFixed2 x = ((if x < 0 then ''-'' else '''') @ natToString (n div 100)) @ ''.''
      @ [digitChar (n mod 100 div 10), digitChar (n mod 10)]"
    by (simp add: toFixed2_def n_def Let_def)
  moreover have "n mod 100 div 10 < 10" "n mod 10 < 10" by simp_all
  ultimately show ?thesis by blast
qed

lemma intToString_last: "\<exists>d<10. last (intToString v) = digitChar d"
proof -
  have "last (intToString v) = digitChar (nat \<bar>v\<bar> mod 10)"
    by (simp add: intToString_def natToString_last)
  moreover have "nat \<bar>v\<bar> mod 10 < 10" by simp
  ultimately show ?thesis by blast
qed

lemma formatVolume_last:
  "last (formatVolume vol) =
     (if 1000000 \<le> vol then CHR ''M'' else if 1000 \<le> vol then CHR ''K''
      else last (intToString vol))"
  by (simp add: formatVolume_def)

lemma formatVolume_suffix:
  "(last (formatVolume vol) = CHR ''M'') = (1000000 \<le> vol)"
  "(last (formatVolume vol) = CHR ''K'') = (1000 \<le> vol \<and> vol < 1000000)"
  "last (formatVolume vol) \<noteq> CHR ''B''"
proof -
  obtain d where d: "d < 10" "last (intToString vol) = digitChar d"
    using intToString_last by blast
  note n = digitChar_not_letter [OF d(1)]
  show "(last (formatVolume vol) = CHR ''M'') = (1000000 \<le> vol)"
    using n d(2) by (auto simp: formatVolume_last)
  show "(last (formatVolume vol) = CHR ''K'') = (1000 \<le> vol \<and> vol < 1000000)"
    using n d(2) by (auto simp: formatVolume_last)
  show "last (formatVolume vol) \<noteq> CHR ''B''"
    using n d(2) by (auto simp: formatVolume_last)
qed

lemma format_doubles:
  "toDouble (5 / 2) = 5 / 2"
  "toDouble (3 / 2) = 3 / 2"
  "toDouble (181 / 4) = 181 / 4"
  "toDouble (201 / 200) = 1131529406376837 / 1125899906842624"
  "toDouble (20001 / 200) = 879653282685911 / 8796093022208"
proof -
  show "toDouble (5 / 2) = 5 / 2"
    using toDouble_dyadic [of 5 1] by (simp add: denormExp_def)
  show "toDouble (3 / 2) = 3 / 2"
    using toDouble_dyadic [of 3 1] by (simp add: denormExp_def)
  show "toDouble (181 / 4) = 181 / 4"
    using toDouble_dyadic [of 181 2] by (simp add: denormExp_def)
  show "toDouble (201 / 200) = 1131529406376837 / 1125899906842624"
    by (subst toDouble_eval [where n = 0]) (simp_all add: roundEven_eval)
  show "toDouble (20001 / 200) = 879653282685911 / 8796093022208"
    by (subst toDouble_eval [where n = 6]) (simp_all add: roundEven_eval)
qed

text \<open>
  Claim C5, as stated: both formatters abbreviate with K, M and B at a thousand, a
  million and a thousand million. The volume formatter has no B: a volume of
  1,000,000,000 is printed in millions. The market-cap formatter has no K: below a
  million it prints the dollar sign and the host's \<^verbatim>\<open>toLocaleString\<close> of the value
  (\<open>5,000\<close> for 5000 in an English locale).
\<close>

theorem formatVolume_has_no_B:
  "formatVolume 1000000000 = ''1000.00M''
   \<and> formatVolume 1000000000 \<noteq> ''1.00B''
   \<and> formatMarketCap (\<lambda>n. ''5,000'') 5000 = ''$5,000''
   \<and> formatMarketCap (\<lambda>n. ''5,000'') 5000 \<noteq> ''$5.00K''"
  by (simp add: formatVolume_def formatMarketCap_def toFixed2_def natToString.simps
      digitChar_simps toDouble_numeral)

text \<open>
  Claim C5, amended. The volume formatter prints the quotient \<open>vol / 1000000\<close> with
  two decimals and an M from a million on, the quotient \<open>vol / 1000\<close> with two decimals
  and a K from a thousand up to a million, and the plain integer below a thousand; its
  result ends in M exactly from a million on, in K exactly from a thousand up to a
  million, and never in B. The market-cap formatter prints a dollar sign, then the
  quotient \<open>cap / 1000000000\<close> with two decimals and a B from a thousand million on, the
  quotient \<open>cap / 1000000\<close> with two decimals and an M from a million up to a thousand
  million, and the host's \<^verbatim>\<open>toLocaleString\<close> below a million. Each quotient is the
  double that the division returns. Two decimals means: a point followed by two digits
  ends the number. The three examples of the claim hold.
\<close>

theorem formatters_tiers:
  "(1000000 \<le> vol \<longrightarrow> formatVolume vol = toFixed2 (toDouble (of_int vol / 1000000)) @ ''M'')
   \<and> (1000 \<le> vol \<and> vol < 1000000 \<longrightarrow>
        formatVolume vol = toFixed2 (toDouble (of_int vol / 1000)) @ ''K'')
   \<and> (vol < 1000 \<longrightarrow> formatVolume vol = intToString vol)
   \<and> (last (formatVolume vol) = CHR ''M'') = (1000000 \<le> vol)
   \<and> (last (formatVolume vol) = CHR ''K'') = (1000 \<le> vol \<and> vol < 1000000)
   \<and> last (formatVolume vol) \<noteq> CHR ''B''
   \<and> (1000000000 \<le> cap \<longrightarrow>
        formatMarketCap toLocaleString cap
          = ''$'' @ toFixed2 (toDouble (of_int cap / 1000000000)) @ ''B'')
   \<and> (1000000 \<le> cap \<and> cap < 1000000000 \<longrightarrow>
        formatMarketCap toLocaleString cap
          = ''$'' @ toFixed2 (toDouble (of_int cap / 1000000)) @ ''M'')
   \<and> (cap < 1000000 \<longrightarrow> formatMarketCap toLocaleString cap = ''$'' @ toLocaleString cap)
   \<and> (\<exists>w a b. toFixed2 x = w @ ''.'' @ [digitChar a, digitChar b] \<and> a < 10 \<and> b < 10)
   \<and> formatVolume 2500000 = ''2.50M''
   \<and> formatVolume 500 = ''500''
   \<and> formatMarketCap toLocaleString 1500000000 = ''$1.50B''"
proof -
  have v: "(1000000 \<le> vol \<longrightarrow> formatVolume vol = toFixed2 (toDouble (of_int vol / 1000000)) @ ''M'')
      \<and> (1000 \<le> vol \<and> vol < 1000000 \<longrightarrow>
        formatVolume vol = toFixed2 (toDouble (of_int vol / 1000)) @ ''K'')
      \<and> (vol < 1000 \<longrightarrow> formatVolume vol = intToString vol)"
    by (simp add: formatVolume_def)
  have c: "(1000000000 \<le> cap \<longrightarrow>
        formatMarketCap toLocaleString cap
          = ''$'' @ toFixed2 (toDouble (of_int cap / 1000000000)) @ ''B'')
      \<and> (1000000 \<le> cap \<and> cap < 1000000000 \<longrightarrow>
        formatMarketCap toLocaleString cap
          = ''$'' @ toFixed2 (toDouble (of_int cap / 1000000)) @ ''M'')
      \<and> (cap < 1000000 \<longrightarrow> formatMarketCap toLocaleString cap = ''$'' @ toLocaleString cap)"
    by (simp add: formatMarketCap_def)
  have e1: "formatVolume 2500000 = ''2.50M''"
    by (simp add: formatVolume_def toFixed2_def natToString.simps digitChar_simps format_doubles)
  have e2: "formatVolume 500 = ''500''"
    by (simp add: formatVolume_def intToString_def natToString.simps digitChar_simps)
  have e3: "formatMarketCap toLocaleString 1500000000 = ''$1.50B''"
    by (simp add: formatMarketCap_def toFixed2_def natToString.simps digitChar_simps
        format_doubles)
  from v c formatVolume_suffix [of vol] toFixed2_shape [of x] e1 e2 e3
  show ?thesis by (intro conjI) (elim conjE, assumption)+
qed

text \<open>
  A volume of 45,250 is printed in thousands, a market capitalisation of 2,000,000,000
  in thousand millions.
\<close>

theorem formatters_tiers_witness:
  "(1000::int) \<le> 45250 \<and> (45250::int) < 1000000
   \<and> formatVolume 45250 = ''45.25K''
   \<and> last (formatVolume 45250) = CHR ''K''
   \<and> (2000000000::int) \<ge> 1000000000
   \<and> formatMarketCap (\<lambda>n. '''') 2000000000 = ''$2.00B''"
proof -
  have f: "toFixed2 (toDouble (181 / 4)) = ''45.25''" "toFixed2 (toDouble 2) = ''2.00''"
    by (simp_all add: toFixed2_def natToString.simps digitChar_simps format_doubles
        toDouble_numeral)
  from formatters_tiers [of 45250 2000000000 "\<lambda>n. ''''" 0]
  show ?thesis by (simp add: f)
qed

text \<open>
  Where the exact quotient lies halfway between two hundredths, the double that the
  division returns decides: 1.005 and 100.005 are not doubles, the nearest doubles lie
  just below them, and the lower hundredth is printed.
\<close>

lemma formatters_round_the_double:
  "formatVolume 1005000 = ''1.00M''"
  "formatVolume 100005 = ''100.00K''"
  "formatMarketCap toLocaleString 1005000000 = ''$1.00B''"
  by (simp_all add: formatVolume_def formatMarketCap_def toFixed2_def natToString.simps
      digitChar_simps format_doubles)

end
